theory Spec2Isabelle
  imports Complex_Main "HOL-Library.Sublist" "HOL-Library.AList"
begin

section \<open>Python values of the medicine-information pipeline\<close>

text \<open>
  The pipeline of \<^verbatim>\<open>medicine_info.py\<close> drives a browser, a generative model, an HTML
  parser and a JSON parser. Each source function is embedded as a HOL function; whatever
  the function reads from one of these collaborators is an explicit argument (a record of
  the observations it makes, in the order it makes them), and every \<^verbatim>\<open>raise\<close> is the
  \<open>Inl\<close> branch of a sum, so that a \<^verbatim>\<open>try\<close>/\<^verbatim>\<open>except\<close> of the source is a
  case distinction of the model.

  A character of the model is a character of the Python string; the model covers the
  strings whose characters have code points below 256, so that \<^verbatim>\<open>[^\x00-\x7F]\<close> is
  a code of 128 or more.
\<close>

subsection \<open>Exceptions\<close>

text \<open>
  An \<open>exn\<close> is an instance of a subclass of \<^verbatim>\<open>Exception\<close>: its class, as far as the
  source tells classes apart, and its message \<^verbatim>\<open>str(e)\<close>.
\<close>

datatype exn_kind =
  JSONDecodeError | IndexError | KeyError | TypeError | AttributeError
  | ZeroDivisionError | TimeoutError | OtherError

datatype exn = Exn (kind: exn_kind) (message: string)

subsection \<open>Strings\<close>

definition nl :: char where
  "nl = CHR 0x0A"

text \<open>\<^verbatim>\<open>sub in s\<close> on strings: \<open>sub\<close> occurs in \<open>s\<close> as a contiguous substring.\<close>

fun py_in :: "string \<Rightarrow> string \<Rightarrow> bool" where
  "py_in sub [] = (sub = [])"
| "py_in sub (c # cs) = (prefix sub (c # cs) \<or> py_in sub cs)"

text \<open>
  \<^verbatim>\<open>str.isspace\<close> on the characters below 256, and \<^verbatim>\<open>s.strip()\<close>, which removes the
  leading and the trailing whitespace.
\<close>

definition py_isspace :: "char \<Rightarrow> bool" where
  "py_isspace c = (of_char c \<in> {9, 10, 11, 12, 13, 28, 29, 30, 31, 32, 133, 160 :: nat})"

definition py_strip :: "string \<Rightarrow> string" where
  "py_strip s = rev (dropWhile py_isspace (rev (dropWhile py_isspace s)))"

text \<open>
  \<^verbatim>\<open>s.split(sep)\<close> for a non-empty separator: the pieces between the occurrences of
  \<open>sep\<close>, found from the left without overlap. \<open>cur\<close> is the piece being read.
\<close>

function py_split_from :: "string \<Rightarrow> string \<Rightarrow> string \<Rightarrow> string list" where
  "py_split_from sep cur [] = [cur]"
| "py_split_from sep cur (c # cs) =
     (if sep \<noteq> [] \<and> prefix sep (c # cs)
      then cur # py_split_from sep [] (drop (length sep) (c # cs))
      else py_split_from sep (cur @ [c]) cs)"
  by pat_completeness auto
termination
  by (relation "measure (\<lambda>(sep, cur, s). length s)") auto

definition py_split :: "string \<Rightarrow> string \<Rightarrow> string list" where
  "py_split sep s = py_split_from sep [] s"

text \<open>\<^verbatim>\<open>s.replace(old, new)\<close> for a non-empty \<open>old\<close>.\<close>

function py_replace :: "string \<Rightarrow> string \<Rightarrow> string \<Rightarrow> string" where
  "py_replace old new [] = []"
| "py_replace old new (c # cs) =
     (if old \<noteq> [] \<and> prefix old (c # cs)
      then new @ py_replace old new (drop (length old) (c # cs))
      else c # py_replace old new cs)"
  by pat_completeness auto
termination
  by (relation "measure (\<lambda>(old, new, s). length s)") auto

text \<open>\<^verbatim>\<open>sep.join(xs)\<close> on a list of strings.\<close>

fun py_join :: "string \<Rightarrow> string list \<Rightarrow> string" where
  "py_join sep [] = []"
| "py_join sep [x] = x"
| "py_join sep (x # y # ys) = x @ sep @ py_join sep (y # ys)"

text \<open>\<^verbatim>\<open>xs[n]\<close> for a non-negative index.\<close>

definition py_index :: "'a list \<Rightarrow> nat \<Rightarrow> exn + 'a" where
  "py_index xs n =
     (if n < length xs then Inr (xs ! n)
      else Inl (Exn IndexError ''list index out of range''))"

subsection \<open>Values read from JSON\<close>

text \<open>
  What \<^verbatim>\<open>json.loads\<close> returns: \<^verbatim>\<open>None\<close>, a bool, an int, a float, a string, a list
  or a dict with string keys, in insertion order. Floats are the finite ones, as
  rationals; \<^verbatim>\<open>NaN\<close> and the infinities are outside the model.
\<close>

datatype json =
  JNull | JBool bool | JInt int | JFloat rat | JStr string
  | JList "json list" | JDict "(string \<times> json) list"

text \<open>Truth value of a Python object, as \<^verbatim>\<open>not x\<close> and \<^verbatim>\<open>x and y\<close> read it.\<close>

fun py_truthy :: "json \<Rightarrow> bool" where
  "py_truthy JNull = False"
| "py_truthy (JBool b) = b"
| "py_truthy (JInt i) = (i \<noteq> 0)"
| "py_truthy (JFloat r) = (r \<noteq> 0)"
| "py_truthy (JStr s) = (s \<noteq> [])"
| "py_truthy (JList xs) = (xs \<noteq> [])"
| "py_truthy (JDict kvs) = (kvs \<noteq> [])"

text \<open>
  The name of the type of a value, as error messages print it, and a text between
  apostrophes.
\<close>

fun py_type_name :: "json \<Rightarrow> string" where
  "py_type_name JNull = ''NoneType''"
| "py_type_name (JBool b) = ''bool''"
| "py_type_name (JInt i) = ''int''"
| "py_type_name (JFloat r) = ''float''"
| "py_type_name (JStr s) = ''str''"
| "py_type_name (JList xs) = ''list''"
| "py_type_name (JDict kvs) = ''dict''"

definition single_quoted :: "string \<Rightarrow> string" where
  "single_quoted s = [CHR 0x27] @ s @ [CHR 0x27]"

text \<open>
  \<^verbatim>\<open>key in x\<close>, \<^verbatim>\<open>x[key]\<close> and \<^verbatim>\<open>x[key] = v\<close> for a string \<open>key\<close>. Only a dict
  supports all three; on the other values they raise \<^verbatim>\<open>TypeError\<close> (membership in a
  list or a string is defined, indexing them by a string is not). The messages are
  those of CPython 3.11; the message of a \<^verbatim>\<open>KeyError\<close> is the \<^verbatim>\<open>repr\<close> of the key,
  which for the keys of the source is the key between apostrophes.
\<close>

fun py_contains :: "string \<Rightarrow> json \<Rightarrow> exn + bool" where
  "py_contains key (JDict kvs) = Inr (map_of kvs key \<noteq> None)"
| "py_contains key (JList xs) = Inr (JStr key \<in> set xs)"
| "py_contains key (JStr s) = Inr (py_in key s)"
| "py_contains key v =
     Inl (Exn TypeError
       (''argument of type '' @ single_quoted (py_type_name v) @ '' is not iterable''))"

fun py_getitem :: "json \<Rightarrow> string \<Rightarrow> exn + json" where
  "py_getitem (JDict kvs) key =
     (case map_of kvs key of
        None \<Rightarrow> Inl (Exn KeyError (single_quoted key))
      | Some v \<Rightarrow> Inr v)"
| "py_getitem (JList xs) key =
     Inl (Exn TypeError ''list indices must be integers or slices, not str'')"
| "py_getitem (JStr s) key =
     Inl (Exn TypeError (''string indices must be integers, not '' @ single_quoted ''str''))"
| "py_getitem v key =
     Inl (Exn TypeError (single_quoted (py_type_name v) @ '' object is not subscriptable''))"

fun py_setitem :: "json \<Rightarrow> string \<Rightarrow> json \<Rightarrow> exn + json" where
  "py_setitem (JDict kvs) key v = Inr (JDict (AList.update key v kvs))"
| "py_setitem (JList xs) key v =
     Inl (Exn TypeError ''list indices must be integers or slices, not str'')"
| "py_setitem x key v =
     Inl (Exn TypeError
       (single_quoted (py_type_name x) @ '' object does not support item assignment''))"

text \<open>A natural number in decimal digits, as \<^verbatim>\<open>str\<close> prints it.\<close>

function show_nat :: "nat \<Rightarrow> string" where
  "show_nat n =
     (if n < 10 then [char_of (48 + n)]
      else show_nat (n div 10) @ [char_of (48 + n mod 10)])"
  by pat_completeness auto
termination
  by (relation "measure (\<lambda>n. n)") auto

declare show_nat.simps [simp del]

section \<open>Content Normalizer: removing excess newlines\<close>

text \<open>
  \<^verbatim>\<open>re.sub(r'\n{3,}', '\n\n', markdown_content)\<close>: scanning from the left, a maximal run
  of three or more newline characters is replaced by two; any other character is copied.
\<close>

function collapse_newlines :: "string \<Rightarrow> string" where
  "collapse_newlines [] = []"
| "collapse_newlines (c # cs) =
     (if 3 \<le> length (takeWhile (\<lambda>x. x = nl) (c # cs))
      then [nl, nl] @ collapse_newlines (dropWhile (\<lambda>x. x = nl) (c # cs))
      else c # collapse_newlines cs)"
  by pat_completeness auto
termination
proof (relation "measure length")
  show "wf (measure length)" by simp
next
  fix c :: char and cs :: string
  assume "3 \<le> length (takeWhile (\<lambda>x. x = nl) (c # cs))"
  then have "c = nl" by (auto split: if_splits)
  then have "length (dropWhile (\<lambda>x. x = nl) (c # cs)) \<le> length cs"
    by (simp add: length_dropWhile_le)
  then show "(dropWhile (\<lambda>x. x = nl) (c # cs), c # cs) \<in> measure length" by simp
next
  fix c :: char and cs :: string
  show "(cs, c # cs) \<in> measure length" by simp
qed

section \<open>Site Selector\<close>

text \<open>
  What \<^verbatim>\<open>select_medication_website\<close> observes of one search result (an \<^verbatim>\<open>h3\<close>
  element): \<open>href\<close> is the outcome of \<^verbatim>\<open>parent.get_attribute('href')\<close> (it raises,
  or returns \<^verbatim>\<open>None\<close> or a string), and \<open>click\<close> is the outcome of clicking the
  result and waiting for the network to idle (one of the two raises, or the page has
  navigated and \<^verbatim>\<open>page.url\<close> is the string given). A result that is tried again
  is observed the same way again.
\<close>

record link =
  href :: "exn + string option"
  click :: "exn + string"

text \<open>
  The search-results page: \<open>wait_for_h3\<close> is the exception of
  \<^verbatim>\<open>page.wait_for_selector('h3')\<close>, if it raises (no result appeared within the
  timeout); \<open>h3_links\<close> is \<^verbatim>\<open>page.locator('h3').all()\<close>, in page order.
\<close>

record results_page =
  wait_for_h3 :: "exn option"
  h3_links :: "exn + link list"

definition preferred_domains :: "string list" where
  "preferred_domains =
     [''1mg.com'', ''apollopharmacy.in'', ''webmd.com'', ''mayoclinic.org'', ''drugs.com'',
      ''rxlist.com'', ''nih.gov'', ''medlineplus.gov'', ''pharmeasy.in'', ''netmeds.com'']"

text \<open>
  The body of the innermost \<^verbatim>\<open>try\<close>, for one domain and one result:
  \<open>Inr (Some u)\<close> is \<^verbatim>\<open>return page.url\<close>, \<open>Inr None\<close> falls through to the next
  result, \<open>Inl e\<close> is an exception raised inside the \<^verbatim>\<open>try\<close>.
\<close>

definition try_link :: "string \<Rightarrow> link \<Rightarrow> exn + string option" where
  "try_link domain l =
     (case href l of
        Inl e \<Rightarrow> Inl e
      | Inr h \<Rightarrow>
          (let url_text = (case h of None \<Rightarrow> '''' | Some s \<Rightarrow> s) in
           if py_in domain url_text
           then (case click l of Inl e \<Rightarrow> Inl e | Inr u \<Rightarrow> Inr (Some u))
           else Inr None))"

text \<open>
  \<^verbatim>\<open>for i, link in enumerate(all_links)\<close>: an exception of the body is caught and the
  loop continues with the next result.
\<close>

fun scan_links :: "string \<Rightarrow> link list \<Rightarrow> string option" where
  "scan_links domain [] = None"
| "scan_links domain (l # ls) =
     (case try_link domain l of
        Inl e \<Rightarrow> scan_links domain ls
      | Inr None \<Rightarrow> scan_links domain ls
      | Inr (Some u) \<Rightarrow> Some u)"

text \<open>\<^verbatim>\<open>for domain in preferred_domains\<close>, around the loop over the results.\<close>

fun scan_domains :: "string list \<Rightarrow> link list \<Rightarrow> string option" where
  "scan_domains [] ls = None"
| "scan_domains (d # ds) ls =
     (case scan_links d ls of
        Some u \<Rightarrow> Some u
      | None \<Rightarrow> scan_domains ds ls)"

text \<open>
  The fallback: \<^verbatim>\<open>all_links[0].click()\<close> in a \<^verbatim>\<open>try\<close> of its own, whose handler
  returns \<^verbatim>\<open>None\<close>. On an empty list the index raises \<^verbatim>\<open>IndexError\<close>, inside the
  \<^verbatim>\<open>try\<close>.
\<close>

definition click_first :: "link list \<Rightarrow> exn + string option" where
  "click_first ls =
     (case ls of
        [] \<Rightarrow> Inl (Exn IndexError ''list index out of range'')
      | l # _ \<Rightarrow> (case click l of Inl e \<Rightarrow> Inl e | Inr u \<Rightarrow> Inr (Some u)))"

definition select_first_result :: "link list \<Rightarrow> exn + string option" where
  "select_first_result ls =
     (case click_first ls of
        Inl e \<Rightarrow> Inr None
      | Inr r \<Rightarrow> Inr r)"

text \<open>The body of the outer \<^verbatim>\<open>try\<close>, and the function with its handler.\<close>

definition select_body :: "results_page \<Rightarrow> exn + string option" where
  "select_body page =
     (case wait_for_h3 page of
        Some e \<Rightarrow> Inl e
      | None \<Rightarrow>
          (case h3_links page of
             Inl e \<Rightarrow> Inl e
           | Inr all_links \<Rightarrow>
               (case scan_domains preferred_domains all_links of
                  Some u \<Rightarrow> Inr (Some u)
                | None \<Rightarrow> select_first_result all_links)))"

definition select_medication_website :: "results_page \<Rightarrow> exn + string option" where
  "select_medication_website page =
     (case select_body page of
        Inl e \<Rightarrow> Inr None
      | Inr r \<Rightarrow> Inr r)"

text \<open>
  A result matches a domain when its link target was read and contains the domain
  (\<^verbatim>\<open>domain in url_text\<close>, with \<^verbatim>\<open>url_text = href or ""\<close>).
\<close>

definition link_matches :: "string \<Rightarrow> link \<Rightarrow> bool" where
  "link_matches domain l =
     (case href l of
        Inl e \<Rightarrow> False
      | Inr None \<Rightarrow> py_in domain ''''
      | Inr (Some s) \<Rightarrow> py_in domain s)"

section \<open>Medicine Search Stage\<close>

text \<open>
  What \<^verbatim>\<open>search_single_medicine\<close> observes of the browser page, in the order of the
  source. A value \<open>exn option\<close> is the exception an interaction raises, if it does; a
  value \<open>exn + 'a\<close> is an exception or the value read.
  \<^item> \<open>goto_google\<close>: \<^verbatim>\<open>page.goto("https://www.google.com")\<close>;
  \<^item> \<open>accept_all_visible\<close>, \<open>accept_all_click\<close>: the cookie button;
  \<^item> \<open>input_visible sel\<close>: \<^verbatim>\<open>page.locator(sel).is_visible()\<close> for a search input;
  \<^item> \<open>enter_query sel q\<close>: clicking the input, clearing it, typing \<open>q\<close> character by
    character and pressing Enter;
  \<^item> \<open>wait_results\<close>: \<^verbatim>\<open>page.wait_for_load_state('networkidle')\<close>;
  \<^item> \<open>did_you_mean_visible\<close>, \<open>suggestion_text\<close>, \<open>suggestion_click\<close>: the "Did you
    mean" link, the text of \<^verbatim>\<open>a.gL9Hy, i\<close>, and the click on the suggestion;
  \<^item> \<open>showing_results_count\<close>, \<open>correction_text\<close>: the "Showing results for" element
    and the text of \<^verbatim>\<open>.spell_orig a, .spell b\<close>;
  \<^item> \<open>results_view\<close>: the page as the Site Selector then sees it.
\<close>

record search_page =
  goto_google :: "exn option"
  accept_all_visible :: "exn + bool"
  accept_all_click :: "exn option"
  input_visible :: "string \<Rightarrow> exn + bool"
  enter_query :: "string \<Rightarrow> string \<Rightarrow> exn option"
  wait_results :: "exn option"
  did_you_mean_visible :: "exn + bool"
  suggestion_text :: "exn + string"
  suggestion_click :: "exn option"
  showing_results_count :: "exn + nat"
  correction_text :: "exn + string"
  results_view :: results_page

definition search_selectors :: "string list" where
  "search_selectors =
     [''textarea.gLFyf'', ''#APjFqb'', ''textarea[name='' @ [CHR 0x22] @ ''q'' @ [CHR 0x22] @ '']'']"

text \<open>
  \<^verbatim>\<open>for selector in search_selectors\<close>: the first visible input receives the query and
  the loop breaks; when none is visible nothing is typed.
\<close>

fun type_query :: "search_page \<Rightarrow> string \<Rightarrow> string list \<Rightarrow> exn option" where
  "type_query page q [] = None"
| "type_query page q (selector # rest) =
     (case input_visible page selector of
        Inl e \<Rightarrow> Some e
      | Inr True \<Rightarrow> enter_query page selector q
      | Inr False \<Rightarrow> type_query page q rest)"

text \<open>Lines 86 to 115: everything up to the loaded results page.\<close>

definition open_results :: "search_page \<Rightarrow> string \<Rightarrow> exn option" where
  "open_results page q =
     (case goto_google page of
        Some e \<Rightarrow> Some e
      | None \<Rightarrow>
          (case (case accept_all_visible page of
                   Inl e \<Rightarrow> Some e
                 | Inr True \<Rightarrow> accept_all_click page
                 | Inr False \<Rightarrow> None) of
             Some e \<Rightarrow> Some e
           | None \<Rightarrow>
               (case type_query page q search_selectors of
                  Some e \<Rightarrow> Some e
                | None \<Rightarrow> wait_results page)))"

text \<open>
  The "Did you mean" branch. The body of its \<^verbatim>\<open>try\<close> assigns the suggestion to
  \<^verbatim>\<open>corrected_spelling\<close> before it clicks, so the body yields the value of the variable
  together with the exception that ended it, if any; the bare \<^verbatim>\<open>except\<close> drops the
  exception and keeps the variable.
\<close>

definition did_you_mean_body :: "search_page \<Rightarrow> string \<Rightarrow> string \<times> exn option" where
  "did_you_mean_body page corrected_spelling =
     (case suggestion_text page of
        Inl e \<Rightarrow> (corrected_spelling, Some e)
      | Inr suggestion \<Rightarrow> (suggestion, suggestion_click page))"

definition did_you_mean_step :: "search_page \<Rightarrow> string \<Rightarrow> exn + string" where
  "did_you_mean_step page corrected_spelling =
     (case did_you_mean_visible page of
        Inl e \<Rightarrow> Inl e
      | Inr True \<Rightarrow> Inr (fst (did_you_mean_body page corrected_spelling))
      | Inr False \<Rightarrow> Inr corrected_spelling)"

text \<open>
  The "Showing results for" branch is a second \<^verbatim>\<open>if\<close>, not an \<^verbatim>\<open>else\<close>: it runs
  whatever the first branch did, and overwrites \<^verbatim>\<open>corrected_spelling\<close> when the text of
  the correction is read.
\<close>

definition showing_results_step :: "search_page \<Rightarrow> string \<Rightarrow> exn + string" where
  "showing_results_step page corrected_spelling =
     (case showing_results_count page of
        Inl e \<Rightarrow> Inl e
      | Inr n \<Rightarrow>
          (if n > 0
           then (case correction_text page of
                   Inl e \<Rightarrow> Inr corrected_spelling
                 | Inr correction \<Rightarrow> Inr correction)
           else Inr corrected_spelling))"

text \<open>
  The stage returns \<^verbatim>\<open>(corrected_spelling, url)\<close> when the url is truthy and
  \<^verbatim>\<open>(corrected_spelling, None)\<close> otherwise.
\<close>

definition search_single_medicine ::
  "search_page \<Rightarrow> string \<Rightarrow> exn + (string \<times> string option)" where
  "search_single_medicine page misspelled_medicine =
     (case open_results page misspelled_medicine of
        Some e \<Rightarrow> Inl e
      | None \<Rightarrow>
          (case did_you_mean_step page misspelled_medicine of
             Inl e \<Rightarrow> Inl e
           | Inr c1 \<Rightarrow>
               (case showing_results_step page c1 of
                  Inl e \<Rightarrow> Inl e
                | Inr corrected_spelling \<Rightarrow>
                    (case select_medication_website (results_view page) of
                       Inl e \<Rightarrow> Inl e
                     | Inr url \<Rightarrow>
                         (if url \<noteq> None \<and> url \<noteq> Some ''''
                          then Inr (corrected_spelling, url)
                          else Inr (corrected_spelling, None))))))"

section \<open>Content Normalizer\<close>

text \<open>
  The document as \<^verbatim>\<open>BeautifulSoup(html_content, 'html.parser')\<close> holds it: strings
  and elements with a (lower-case) tag name, attributes (one value for each name) and
  children. A \<^verbatim>\<open>class\<close> attribute is kept as written, its class names separated by
  whitespace. The soup itself is the list of its top-level nodes.

  A string carries the class the parser gave it: \<open>PlainText\<close> for
  \<^verbatim>\<open>NavigableString\<close> and \<^verbatim>\<open>CData\<close>, the classes of the strings inside
  \<^verbatim>\<open>script\<close>, \<^verbatim>\<open>style\<close>, \<^verbatim>\<open>template\<close>, \<^verbatim>\<open>rt\<close> and \<^verbatim>\<open>rp\<close>,
  \<open>CommentText\<close> for comments, and \<open>OtherText\<close> for declarations, doctypes and
  processing instructions.
\<close>

datatype text_class =
  PlainText | ScriptText | StyleText | TemplateText | RubyText | RubyParenText
  | CommentText | OtherText

datatype node =
  Text text_class string
  | Element (tag: string) (attrs: "(string \<times> string) list") (children: "node list")

text \<open>
  The simple selectors that occur in the source: \<^verbatim>\<open>tag\<close>, \<^verbatim>\<open>#id\<close>, \<^verbatim>\<open>.class\<close>,
  \<^verbatim>\<open>[attr=value]\<close> and \<^verbatim>\<open>tag[attr=value]\<close>.
\<close>

datatype selector =
  ByTag string | ById string | ByClass string
  | ByAttr string string | ByTagAttr string string string

definition class_names :: "(string \<times> string) list \<Rightarrow> string list" where
  "class_names as =
     (case map_of as ''class'' of
        None \<Rightarrow> []
      | Some v \<Rightarrow>
          filter (\<lambda>w. w \<noteq> [])
            (py_split '' '' (map (\<lambda>c. if py_isspace c then CHR '' '' else c) v)))"

text \<open>
  An attribute selector compares the value through the pattern \<^verbatim>\<open>^value$\<close>, which
  also matches the value followed by one newline; ids and class names are compared as
  they are.
\<close>

definition attr_equals :: "(string \<times> string) list \<Rightarrow> string \<Rightarrow> string \<Rightarrow> bool" where
  "attr_equals as a v = (map_of as a = Some v \<or> map_of as a = Some (v @ [nl]))"

fun selects :: "selector \<Rightarrow> string \<Rightarrow> (string \<times> string) list \<Rightarrow> bool" where
  "selects (ByTag t) tg as = (tg = t)"
| "selects (ById i) tg as = (map_of as ''id'' = Some i)"
| "selects (ByClass c) tg as = (c \<in> set (class_names as))"
| "selects (ByAttr a v) tg as = attr_equals as a v"
| "selects (ByTagAttr t a v) tg as = (tg = t \<and> attr_equals as a v)"

text \<open>The selector group of the elements to remove, and the candidates for the main content.\<close>

definition unwanted_selectors :: "selector list" where
  "unwanted_selectors =
     [ByTag ''script'', ByTag ''style'', ByTag ''nav'', ByTag ''footer'', ByTag ''iframe'',
      ByClass ''cookie-banner'', ByClass ''popup'', ByClass ''modal'',
      ByClass ''advertisement'', ByClass ''ad'', ByClass ''banner'', ByTag ''aside'',
      ByAttr ''role'' ''banner'', ByAttr ''role'' ''complementary'']"

definition potential_content_selectors :: "selector list" where
  "potential_content_selectors =
     [ByTag ''main'', ByTag ''article'', ById ''content'', ByClass ''content'',
      ByClass ''main'', ByClass ''main-content'', ByClass ''product-detail'',
      ByClass ''drug-info'', ByClass ''medicine-info'', ByClass ''product-description'',
      ByTagAttr ''div'' ''role'' ''main'']"

definition unwanted :: "string \<Rightarrow> (string \<times> string) list \<Rightarrow> bool" where
  "unwanted tg as = (\<exists>s \<in> set unwanted_selectors. selects s tg as)"

text \<open>
  \<^verbatim>\<open>soup.select(...)\<close>: the elements at any depth that satisfy the test, in document
  order.
\<close>

fun select_all :: "(string \<Rightarrow> (string \<times> string) list \<Rightarrow> bool) \<Rightarrow> node list \<Rightarrow> node list" where
  "select_all P [] = []"
| "select_all P (Text k s # ns) = select_all P ns"
| "select_all P (Element tg as cs # ns) =
     (if P tg as then [Element tg as cs] else []) @ select_all P cs @ select_all P ns"

text \<open>
  \<^verbatim>\<open>element.decompose()\<close> for every element selected by the unwanted group: each such
  element leaves the tree together with everything below it.
\<close>

fun decompose_unwanted :: "node list \<Rightarrow> node list" where
  "decompose_unwanted [] = []"
| "decompose_unwanted (Text k s # ns) = Text k s # decompose_unwanted ns"
| "decompose_unwanted (Element tg as cs # ns) =
     (if unwanted tg as then decompose_unwanted ns
      else Element tg as (decompose_unwanted cs) # decompose_unwanted ns)"

text \<open>
  \<^verbatim>\<open>element.get_text(strip=True)\<close>: the strings below the element that have the class
  the element is interested in, each stripped, the empty ones skipped, joined without a
  separator. A \<^verbatim>\<open>script\<close>, \<^verbatim>\<open>style\<close>, \<^verbatim>\<open>template\<close>, \<^verbatim>\<open>rt\<close> or \<^verbatim>\<open>rp\<close>
  element is interested in the strings of its own class, every other element in the plain
  ones. On a string itself the text is the string, stripped.
\<close>

fun strings :: "text_class \<Rightarrow> node list \<Rightarrow> string list" where
  "strings k [] = []"
| "strings k (Text k' s # ns) = (if k' = k then [s] else []) @ strings k ns"
| "strings k (Element tg as cs # ns) = strings k cs @ strings k ns"

definition interesting_class :: "string \<Rightarrow> text_class" where
  "interesting_class tg =
     (if tg = ''script'' then ScriptText
      else if tg = ''style'' then StyleText
      else if tg = ''template'' then TemplateText
      else if tg = ''rt'' then RubyText
      else if tg = ''rp'' then RubyParenText
      else PlainText)"

fun get_text_strip :: "node \<Rightarrow> string" where
  "get_text_strip (Text k s) = py_strip s"
| "get_text_strip (Element tg as cs) =
     concat (filter (\<lambda>s. s \<noteq> []) (map py_strip (strings (interesting_class tg) cs)))"

text \<open>The inner loop: the first matching element with more than 200 characters of text.\<close>

fun first_substantial :: "node list \<Rightarrow> node option" where
  "first_substantial [] = None"
| "first_substantial (element # elements) =
     (if length (get_text_strip element) > 200 then Some element
      else first_substantial elements)"

text \<open>The outer loop over the candidate selectors, which stops at the first that yields one.\<close>

fun find_main_content :: "selector list \<Rightarrow> node list \<Rightarrow> node option" where
  "find_main_content [] soup = None"
| "find_main_content (s # ss) soup =
     (case first_substantial (select_all (selects s) soup) of
        Some element \<Rightarrow> Some element
      | None \<Rightarrow> find_main_content ss soup)"

text \<open>\<^verbatim>\<open>soup.body\<close>: the first \<^verbatim>\<open>body\<close> element of the document, or \<^verbatim>\<open>None\<close>.\<close>

definition soup_body :: "node list \<Rightarrow> node option" where
  "soup_body soup =
     (case select_all (\<lambda>tg as. tg = ''body'') soup of
        [] \<Rightarrow> None
      | b # _ \<Rightarrow> Some b)"

definition main_content :: "node list \<Rightarrow> node option" where
  "main_content soup =
     (case find_main_content potential_content_selectors (decompose_unwanted soup) of
        Some element \<Rightarrow> Some element
      | None \<Rightarrow> soup_body (decompose_unwanted soup))"

subsection \<open>Conversion to readable text\<close>

text \<open>
  Modelled from the spec: the conversion of the selected element's markup to plain
  readable text with heading-preserving rules, which the source leaves to the library
  \<^verbatim>\<open>markdownify\<close> (\<^verbatim>\<open>md(str(main_content), heading_style="ATX")\<close>). The plain
  strings of the element are kept in document order; a heading \<^verbatim>\<open>h1\<close> to \<^verbatim>\<open>h6\<close>
  becomes a paragraph of its own that starts with as many \<^verbatim>\<open>#\<close> as its level. Where
  nothing was selected the converter receives the text \<^verbatim>\<open>None\<close>.
\<close>

definition heading_level :: "string \<Rightarrow> nat option" where
  "heading_level tg =
     (if tg = ''h1'' then Some 1 else if tg = ''h2'' then Some 2
      else if tg = ''h3'' then Some 3 else if tg = ''h4'' then Some 4
      else if tg = ''h5'' then Some 5 else if tg = ''h6'' then Some 6
      else None)"

definition render_element :: "string \<Rightarrow> string \<Rightarrow> string" where
  "render_element tg inner =
     (case heading_level tg of
        None \<Rightarrow> inner
      | Some n \<Rightarrow> [nl, nl] @ replicate n CHR ''#'' @ '' '' @ inner @ [nl, nl])"

fun readable_text :: "node list \<Rightarrow> string" where
  "readable_text [] = []"
| "readable_text (Text k s # ns) = (if k = PlainText then s else []) @ readable_text ns"
| "readable_text (Element tg as cs # ns) =
     render_element tg (readable_text cs) @ readable_text ns"

definition spec_markdown :: "node option \<Rightarrow> string" where
  "spec_markdown x =
     (case x of
        None \<Rightarrow> ''None''
      | Some element \<Rightarrow> readable_text [element])"

subsection \<open>The libraries\<close>

text \<open>
  The functions of the libraries the pipeline calls, taken as they are:
  \<^item> \<open>html_parser\<close>: \<^verbatim>\<open>BeautifulSoup(html, 'html.parser')\<close>;
  \<^item> \<open>markdownify\<close>: \<^verbatim>\<open>md(str(x), heading_style="ATX")\<close> for an element \<open>x\<close> or for
    \<^verbatim>\<open>None\<close>;
  \<^item> \<open>generate_content k name content\<close>: the text of the model's response to the
    \<open>k\<close>-th request of the run (counted from 0), whose prompt is built from the medicine
    name and the first 20000 characters of the content; \<open>Inl\<close> when the request, or
    reading \<^verbatim>\<open>response.text\<close>, raises;
  \<^item> \<open>json_loads\<close>: \<^verbatim>\<open>json.loads\<close>;
  \<^item> \<open>py_str\<close>: the builtin \<^verbatim>\<open>str\<close> on a value that is neither a string nor a list.
\<close>

record env =
  html_parser :: "string \<Rightarrow> exn + node list"
  markdownify :: "node option \<Rightarrow> exn + string"
  generate_content :: "nat \<Rightarrow> string \<Rightarrow> string \<Rightarrow> exn + string"
  json_loads :: "string \<Rightarrow> exn + json"
  py_str :: "json \<Rightarrow> string"

text \<open>The body of the \<^verbatim>\<open>try\<close> of \<^verbatim>\<open>convert_html_to_markdown\<close>, and the function.\<close>

definition convert_body :: "env \<Rightarrow> string \<Rightarrow> string \<Rightarrow> exn + string" where
  "convert_body env html_content url =
     (case html_parser env html_content of
        Inl e \<Rightarrow> Inl e
      | Inr soup \<Rightarrow>
          (case markdownify env (main_content soup) of
             Inl e \<Rightarrow> Inl e
           | Inr markdown_content \<Rightarrow>
               Inr (collapse_newlines markdown_content @ [nl, nl] @ ''Source URL: '' @ url)))"

definition convert_html_to_markdown :: "env \<Rightarrow> string \<Rightarrow> string \<Rightarrow> string" where
  "convert_html_to_markdown env html_content url =
     (case convert_body env html_content url of
        Inl e \<Rightarrow> ''Failed to convert content: '' @ message e
      | Inr markdown_content \<Rightarrow> markdown_content)"

section \<open>Summarization Stage\<close>

text \<open>
  The response text without its code fence: the three branches on \<^verbatim>\<open>"```json"\<close> and
  \<^verbatim>\<open>"```"\<close>, with the indexing of the pieces written out.
\<close>

definition fenced_json :: "string \<Rightarrow> exn + string" where
  "fenced_json response_text =
     (if py_in ''```json'' response_text
      then (case py_index (py_split ''```json'' response_text) 1 of
              Inl e \<Rightarrow> Inl e
            | Inr after \<Rightarrow>
                (case py_index (py_split ''```'' after) 0 of
                   Inl e \<Rightarrow> Inl e
                 | Inr inside \<Rightarrow> Inr (py_strip inside)))
      else if py_in ''```'' response_text
      then (case py_index (py_split ''```'' response_text) 1 of
              Inl e \<Rightarrow> Inl e
            | Inr inside \<Rightarrow> Inr (py_strip inside))
      else Inr (py_strip response_text))"

text \<open>
  \<^verbatim>\<open>json_text.replace('\n', ' ').replace('\\', '\\\\')\<close>: every newline becomes a
  space and every backslash is doubled.
\<close>

definition clean_json_text :: "string \<Rightarrow> string" where
  "clean_json_text json_text =
     py_replace [CHR 0x5C] [CHR 0x5C, CHR 0x5C] (py_replace [nl] '' '' json_text)"

text \<open>
  The parse: on \<^verbatim>\<open>JSONDecodeError\<close>, and on no other exception, the text is parsed
  again without its characters outside ASCII.
\<close>

definition parse_json :: "env \<Rightarrow> string \<Rightarrow> exn + json" where
  "parse_json env json_text =
     (case json_loads env json_text of
        Inr result \<Rightarrow> Inr result
      | Inl e \<Rightarrow>
          (if kind e = JSONDecodeError
           then json_loads env (filter (\<lambda>c. (of_char c :: nat) < 128) json_text)
           else Inl e))"

definition required_keys :: "string list" where
  "required_keys =
     [''medicine_name'', ''description'', ''key_benefits'', ''directions'', ''safety_info'',
      ''relevant_info'']"

text \<open>
  \<^verbatim>\<open>if "medicine_name" not in result or not result["medicine_name"]\<close>: the provided
  name is stored.
\<close>

definition fill_medicine_name :: "json \<Rightarrow> string \<Rightarrow> exn + json" where
  "fill_medicine_name result medicine_name =
     (case py_contains ''medicine_name'' result of
        Inl e \<Rightarrow> Inl e
      | Inr False \<Rightarrow> py_setitem result ''medicine_name'' (JStr medicine_name)
      | Inr True \<Rightarrow>
          (case py_getitem result ''medicine_name'' of
             Inl e \<Rightarrow> Inl e
           | Inr v \<Rightarrow>
               (if \<not> py_truthy v
                then py_setitem result ''medicine_name'' (JStr medicine_name)
                else Inr result)))"

text \<open>\<^verbatim>\<open>for key in required_keys\<close>: a missing key receives its default.\<close>

fun fill_required :: "string list \<Rightarrow> json \<Rightarrow> exn + json" where
  "fill_required [] result = Inr result"
| "fill_required (key # keys) result =
     (case py_contains key result of
        Inl e \<Rightarrow> Inl e
      | Inr True \<Rightarrow> fill_required keys result
      | Inr False \<Rightarrow>
          (case py_setitem result key
                  (if key = ''key_benefits'' then JList [] else JStr '''') of
             Inl e \<Rightarrow> Inl e
           | Inr result' \<Rightarrow> fill_required keys result'))"

text \<open>
  The body of the \<^verbatim>\<open>try\<close> of \<^verbatim>\<open>extract_medicine_info\<close>: one request to the model,
  the parse and the defaults.
\<close>

definition summarize :: "env \<Rightarrow> nat \<Rightarrow> string \<Rightarrow> string \<Rightarrow> exn + json" where
  "summarize env k markdown_content medicine_name =
     (case generate_content env k medicine_name (take 20000 markdown_content) of
        Inl e \<Rightarrow> Inl e
      | Inr response_text \<Rightarrow>
          (case fenced_json response_text of
             Inl e \<Rightarrow> Inl e
           | Inr json_text \<Rightarrow>
               (case parse_json env (clean_json_text json_text) of
                  Inl e \<Rightarrow> Inl e
                | Inr result \<Rightarrow>
                    (case fill_medicine_name result medicine_name of
                       Inl e \<Rightarrow> Inl e
                     | Inr result' \<Rightarrow> fill_required required_keys result'))))"

text \<open>The default structure of the handler.\<close>

definition error_record :: "string \<Rightarrow> exn \<Rightarrow> json" where
  "error_record medicine_name e =
     JDict [(''medicine_name'', JStr medicine_name),
            (''description'', JStr (''Error extracting information: '' @ message e)),
            (''key_benefits'', JList []),
            (''directions'', JStr ''''),
            (''safety_info'', JStr ''''),
            (''relevant_info'', JStr '''')]"

text \<open>
  The undecorated function: every exception of the body is caught by
  \<^verbatim>\<open>except Exception\<close> and turned into the default structure. It sends one request, so
  the next request of the run is number \<open>k + 1\<close>.
\<close>

definition extract_medicine_info_once ::
  "env \<Rightarrow> nat \<Rightarrow> string \<Rightarrow> string \<Rightarrow> (exn + json) \<times> nat" where
  "extract_medicine_info_once env k markdown_content medicine_name =
     (case summarize env k markdown_content medicine_name of
        Inl e \<Rightarrow> (Inr (error_record medicine_name e), Suc k)
      | Inr result \<Rightarrow> (Inr result, Suc k))"

text \<open>
  \<^verbatim>\<open>backoff.on_exception(backoff.expo, Exception, max_tries=3, ...)\<close>: the target is
  called; when it raises and the number of tries has reached \<open>max_tries\<close> the exception
  is raised again, otherwise the decorator sleeps and calls the target once more; a value
  the target returns is returned at once. \<open>tries\<close> is the number of calls already made.
\<close>

function on_exception ::
  "nat \<Rightarrow> (nat \<Rightarrow> (exn + 'a) \<times> nat) \<Rightarrow> nat \<Rightarrow> nat \<Rightarrow> (exn + 'a) \<times> nat" where
  "on_exception max_tries target tries k =
     (case target k of
        (Inr ret, k') \<Rightarrow> (Inr ret, k')
      | (Inl e, k') \<Rightarrow>
          (if Suc tries \<ge> max_tries then (Inl e, k')
           else on_exception max_tries target (Suc tries) k'))"
  by pat_completeness auto
termination
  by (relation "measure (\<lambda>(max_tries, target, tries, k). max_tries - tries)") auto

definition extract_medicine_info ::
  "env \<Rightarrow> nat \<Rightarrow> string \<Rightarrow> string \<Rightarrow> (exn + json) \<times> nat" where
  "extract_medicine_info env k markdown_content medicine_name =
     on_exception 3
       (\<lambda>k. extract_medicine_info_once env k markdown_content medicine_name) 0 k"

section \<open>Pipeline Orchestrator\<close>

text \<open>
  What \<^verbatim>\<open>process_medicine_list\<close> observes while it processes one medicine: the page
  as the search stage sees it, the name \<^verbatim>\<open>extract_medicine_name_from_url\<close> returns
  (that function catches every exception itself and returns \<^verbatim>\<open>None\<close> then), and
  \<^verbatim>\<open>page.content()\<close>.
\<close>

record item_obs =
  search_obs :: search_page
  actual_name :: "string option"
  page_content :: "exn + string"

text \<open>
  The browser session of one run: \<open>launch\<close> is the exception raised while Playwright
  starts, the browser is launched and the context and the page are created, if one is;
  \<open>item i\<close> are the observations while the \<open>i\<close>-th medicine is processed; \<open>close\<close> is
  the exception of \<^verbatim>\<open>page.close()\<close> or \<^verbatim>\<open>browser.close()\<close>, if one is raised.
\<close>

record session =
  launch :: "exn option"
  item :: "nat \<Rightarrow> item_obs"
  close :: "exn option"

definition no_url_record :: "string \<Rightarrow> json" where
  "no_url_record medicine_name =
     JDict [(''medicine_name'', JStr medicine_name),
            (''description'', JStr ''Failed to find a reliable URL for this medicine''),
            (''key_benefits'', JList []),
            (''directions'', JStr ''''),
            (''safety_info'', JStr ''''),
            (''relevant_info'', JStr ''''),
            (''url'', JStr '''')]"

definition failure_record :: "string \<Rightarrow> exn \<Rightarrow> json" where
  "failure_record medicine_name e =
     JDict [(''medicine_name'', JStr medicine_name),
            (''description'', JStr (''Error: '' @ message e)),
            (''key_benefits'', JList []),
            (''directions'', JStr ''''),
            (''safety_info'', JStr ''''),
            (''relevant_info'', JStr ''''),
            (''url'', JStr '''')]"

text \<open>
  \<^verbatim>\<open>info["description"] and not info["description"].startswith("Error")\<close>: a falsy
  description decides the test; a truthy one that is not a string has no
  \<^verbatim>\<open>startswith\<close>.
\<close>

definition meaningful :: "json \<Rightarrow> exn + bool" where
  "meaningful info =
     (case py_getitem info ''description'' of
        Inl e \<Rightarrow> Inl e
      | Inr d \<Rightarrow>
          (if \<not> py_truthy d then Inr False
           else (case d of
                   JStr s \<Rightarrow> Inr (\<not> prefix ''Error'' s)
                 | _ \<Rightarrow>
                     Inl (Exn AttributeError
                       (single_quoted (py_type_name d) @ '' object has no attribute ''
                          @ single_quoted ''startswith'')))))"

text \<open>
  The body of the \<^verbatim>\<open>try\<close> in the loop, for one medicine: the record appended to
  \<^verbatim>\<open>results\<close> and whether it counts as a success, or the exception raised; and the
  number of the next request to the model.
\<close>

definition item_body ::
  "env \<Rightarrow> item_obs \<Rightarrow> nat \<Rightarrow> string \<Rightarrow> (exn + json \<times> bool) \<times> nat" where
  "item_body env obs k medicine_name =
     (case search_single_medicine (search_obs obs) (medicine_name @ '' medicine links'') of
        Inl e \<Rightarrow> (Inl e, k)
      | Inr (found_name, None) \<Rightarrow> (Inr (no_url_record medicine_name, False), k)
      | Inr (found_name, Some url) \<Rightarrow>
          (if url = '''' then (Inr (no_url_record medicine_name, False), k)
           else
             (let corrected_name =
                    (case actual_name obs of
                       None \<Rightarrow> found_name
                     | Some n \<Rightarrow> if n \<noteq> '''' then n else found_name)
              in case page_content obs of
                   Inl e \<Rightarrow> (Inl e, k)
                 | Inr html_content \<Rightarrow>
                     (case extract_medicine_info env k
                             (convert_html_to_markdown env html_content url) corrected_name of
                        (Inl e, k') \<Rightarrow> (Inl e, k')
                      | (Inr info, k') \<Rightarrow>
                          (case py_setitem info ''url'' (JStr url) of
                             Inl e \<Rightarrow> (Inl e, k')
                           | Inr info' \<Rightarrow>
                               (case meaningful info' of
                                  Inl e \<Rightarrow> (Inl e, k')
                                | Inr ok \<Rightarrow> (Inr (info', ok), k')))))))"

text \<open>The loop body with its handler: an exception becomes a record of its own.\<close>

definition process_item ::
  "env \<Rightarrow> item_obs \<Rightarrow> nat \<Rightarrow> string \<Rightarrow> (json \<times> bool) \<times> nat" where
  "process_item env obs k medicine_name =
     (case item_body env obs k medicine_name of
        (Inl e, k') \<Rightarrow> ((failure_record medicine_name e, False), k')
      | (Inr r, k') \<Rightarrow> (r, k'))"

text \<open>
  \<^verbatim>\<open>for i, medicine_name in enumerate(medicine_list)\<close>: the list \<^verbatim>\<open>results\<close>, the
  success count and the number of the next request.
\<close>

fun process_items ::
  "env \<Rightarrow> session \<Rightarrow> nat \<Rightarrow> nat \<Rightarrow> string list \<Rightarrow> json list \<times> nat \<times> nat" where
  "process_items env s i k [] = ([], 0, k)"
| "process_items env s i k (medicine_name # rest) =
     (case process_item env (item s i) k medicine_name of
        ((info, ok), k') \<Rightarrow>
          (case process_items env s (Suc i) k' rest of
             (results, success_count, k'') \<Rightarrow>
               (info # results, (if ok then 1 else 0) + success_count, k'')))"

text \<open>
  A key of the returned dict. Python compares keys with \<^verbatim>\<open>==\<close>, under which a bool,
  an int and a float of the same value are one key; lists and dicts are not hashable.
\<close>

datatype dict_key = KNone | KNum rat | KStr string

fun py_hash_key :: "json \<Rightarrow> exn + dict_key" where
  "py_hash_key JNull = Inr KNone"
| "py_hash_key (JBool b) = Inr (KNum (if b then 1 else 0))"
| "py_hash_key (JInt i) = Inr (KNum (of_int i))"
| "py_hash_key (JFloat r) = Inr (KNum r)"
| "py_hash_key (JStr s) = Inr (KStr s)"
| "py_hash_key (JList xs) = Inl (Exn TypeError (''unhashable type: '' @ single_quoted ''list''))"
| "py_hash_key (JDict kvs) = Inl (Exn TypeError (''unhashable type: '' @ single_quoted ''dict''))"

text \<open>The entry of one medicine in the returned dict.\<close>

record medicine_entry =
  description_field :: json
  key_benefits_field :: string
  directions_field :: json
  safety_info_field :: json
  relevant_info_field :: json
  url_field :: json

text \<open>
  \<^verbatim>\<open>", ".join(benefits)\<close> raises \<^verbatim>\<open>TypeError\<close> at the first item that is not a
  string, naming its position and its type; a value that is not a list goes through
  \<^verbatim>\<open>str\<close>. \<open>str_items i xs\<close> are the items of \<open>xs\<close>, whose first item has position
  \<open>i\<close>.
\<close>

fun str_items :: "nat \<Rightarrow> json list \<Rightarrow> exn + string list" where
  "str_items i [] = Inr []"
| "str_items i (JStr s # xs) =
     (case str_items (Suc i) xs of Inl e \<Rightarrow> Inl e | Inr ss \<Rightarrow> Inr (s # ss))"
| "str_items i (x # xs) =
     Inl (Exn TypeError
       (''sequence item '' @ show_nat i @ '': expected str instance, '' @ py_type_name x
          @ '' found''))"

definition benefits_string :: "env \<Rightarrow> json \<Rightarrow> exn + string" where
  "benefits_string env benefits =
     (case benefits of
        JList xs \<Rightarrow>
          (case str_items 0 xs of
             Inl e \<Rightarrow> Inl e
           | Inr ss \<Rightarrow> Inr (py_join '', '' ss))
      | JStr s \<Rightarrow> Inr s
      | _ \<Rightarrow> Inr (py_str env benefits))"

text \<open>\<^verbatim>\<open>info.get("url", "")\<close> on a dict.\<close>

definition get_url :: "json \<Rightarrow> exn + json" where
  "get_url info =
     (case info of
        JDict kvs \<Rightarrow> (case map_of kvs ''url'' of None \<Rightarrow> Inr (JStr '''') | Some v \<Rightarrow> Inr v)
      | _ \<Rightarrow>
          Inl (Exn AttributeError
            (single_quoted (py_type_name info) @ '' object has no attribute ''
               @ single_quoted ''get'')))"

text \<open>Sequencing of two steps that may raise: the second runs on the value of the first.\<close>

definition and_then :: "exn + 'a \<Rightarrow> ('a \<Rightarrow> exn + 'b) \<Rightarrow> exn + 'b" where
  "and_then r f = (case r of Inl e \<Rightarrow> Inl e | Inr x \<Rightarrow> f x)"

text \<open>
  One round of the formatting loop, in the order of evaluation of the source: the name,
  the benefits and their string, the fields of the entry, and last the key under which
  the entry is stored.
\<close>

definition format_entry :: "env \<Rightarrow> json \<Rightarrow> exn + (dict_key \<times> medicine_entry)" where
  "format_entry env info =
     and_then (py_getitem info ''medicine_name'') (\<lambda>medicine_name.
     and_then (py_getitem info ''key_benefits'') (\<lambda>benefits.
     and_then (benefits_string env benefits) (\<lambda>benefits_str.
     and_then (py_getitem info ''description'') (\<lambda>d.
     and_then (py_getitem info ''directions'') (\<lambda>dir.
     and_then (py_getitem info ''safety_info'') (\<lambda>saf.
     and_then (py_getitem info ''relevant_info'') (\<lambda>rel.
     and_then (get_url info) (\<lambda>u.
     and_then (py_hash_key medicine_name) (\<lambda>key.
       Inr (key, \<lparr> description_field = d, key_benefits_field = benefits_str,
                  directions_field = dir, safety_info_field = saf,
                  relevant_info_field = rel, url_field = u \<rparr>))))))))))"

text \<open>
  \<^verbatim>\<open>for info in results\<close>: \<^verbatim>\<open>medicine_data[medicine_name] = ...\<close> replaces the entry
  of a name that is already a key and adds one otherwise.
\<close>

fun format_results ::
  "env \<Rightarrow> json list \<Rightarrow> (dict_key \<times> medicine_entry) list
     \<Rightarrow> exn + (dict_key \<times> medicine_entry) list" where
  "format_results env [] medicine_data = Inr medicine_data"
| "format_results env (info # results) medicine_data =
     (case format_entry env info of
        Inl e \<Rightarrow> Inl e
      | Inr (key, entry) \<Rightarrow>
          format_results env results (AList.update key entry medicine_data))"

text \<open>
  The function. The success rate is only printed; computing it divides by
  \<^verbatim>\<open>len(medicine_list)\<close>.
\<close>

definition process_medicine_list ::
  "env \<Rightarrow> session \<Rightarrow> string list \<Rightarrow> exn + (dict_key \<times> medicine_entry) list" where
  "process_medicine_list env s medicine_list =
     (case launch s of
        Some e \<Rightarrow> Inl e
      | None \<Rightarrow>
          (case process_items env s 0 0 medicine_list of
             (results, success_count, k) \<Rightarrow>
               (case close s of
                  Some e \<Rightarrow> Inl e
                | None \<Rightarrow>
                    (case format_results env results [] of
                       Inl e \<Rightarrow> Inl e
                     | Inr medicine_data \<Rightarrow>
                         (if length medicine_list = 0
                          then Inl (Exn ZeroDivisionError ''division by zero'')
                          else Inr medicine_data)))))"

section \<open>Example pages\<close>

text \<open>
  A search result whose link target is read as \<open>h\<close> and whose click leads to the page
  \<open>u\<close>; one whose click raises; and a results page that has loaded with the given
  results.
\<close>

definition result_link :: "string \<Rightarrow> string \<Rightarrow> link" where
  "result_link h u = \<lparr> href = Inr (Some h), click = Inr u \<rparr>"

definition dead_link :: "string \<Rightarrow> link" where
  "dead_link h =
     \<lparr> href = Inr (Some h), click = Inl (Exn TimeoutError ''Timeout 60000ms exceeded'') \<rparr>"

definition loaded_page :: "link list \<Rightarrow> results_page" where
  "loaded_page ls = \<lparr> wait_for_h3 = None, h3_links = Inr ls \<rparr>"

text \<open>
  A search page on which every interaction succeeds: no cookie dialog, the first search
  input visible, a "Did you mean" link with the given suggestion, \<open>n\<close> elements
  "Showing results for" with the given correction, and one search result.
\<close>

definition suggestion_page :: "string \<Rightarrow> nat \<Rightarrow> string \<Rightarrow> search_page" where
  "suggestion_page suggestion n correction =
     \<lparr> goto_google = None,
       accept_all_visible = Inr False,
       accept_all_click = None,
       input_visible = (\<lambda>selector. Inr (selector = ''textarea.gLFyf'')),
       enter_query = (\<lambda>selector q. None),
       wait_results = None,
       did_you_mean_visible = Inr True,
       suggestion_text = Inr suggestion,
       suggestion_click = None,
       showing_results_count = Inr n,
       correction_text = Inr correction,
       results_view =
         loaded_page [result_link ''https://www.1mg.com/drugs/p'' ''https://www.1mg.com/drugs/p''] \<rparr>"

text \<open>
  A response of the model that is valid JSON with the six required keys, and the object
  it denotes.
\<close>

definition quoted :: "string \<Rightarrow> string" where
  "quoted s = [CHR 0x22] @ s @ [CHR 0x22]"

definition paracetamol_text :: string where
  "paracetamol_text =
     ''{'' @ quoted ''medicine_name'' @ '': '' @ quoted ''Paracetamol'' @ '', ''
       @ quoted ''description'' @ '': '' @ quoted ''Pain reliever'' @ '', ''
       @ quoted ''key_benefits'' @ '': ['' @ quoted ''Relieves pain'' @ '', ''
       @ quoted ''Reduces fever'' @ ''], ''
       @ quoted ''directions'' @ '': '' @ quoted ''After food'' @ '', ''
       @ quoted ''safety_info'' @ '': '' @ quoted '''' @ '', ''
       @ quoted ''relevant_info'' @ '': '' @ quoted '''' @ ''}''"

definition paracetamol_json :: json where
  "paracetamol_json =
     JDict [(''medicine_name'', JStr ''Paracetamol''),
            (''description'', JStr ''Pain reliever''),
            (''key_benefits'', JList [JStr ''Relieves pain'', JStr ''Reduces fever'']),
            (''directions'', JStr ''After food''),
            (''safety_info'', JStr ''''),
            (''relevant_info'', JStr '''')]"

text \<open>
  Libraries for the examples: the parser reads every page as one \<^verbatim>\<open>body\<close> with one
  text, the converter is the conversion to readable text, \<^verbatim>\<open>json.loads\<close> reads
  \<open>paracetamol_text\<close> as \<open>paracetamol_json\<close> and the text \<^verbatim>\<open>{}\<close> as the empty
  object and raises \<^verbatim>\<open>JSONDecodeError\<close> on any other text, and the model answers
  its \<open>k\<close>-th request with \<open>responses k\<close>.
\<close>

definition example_env :: "(nat \<Rightarrow> exn + string) \<Rightarrow> env" where
  "example_env responses =
     \<lparr> html_parser = (\<lambda>html. Inr [Element ''body'' [] [Text PlainText html]]),
       markdownify = (\<lambda>x. Inr (spec_markdown x)),
       generate_content = (\<lambda>k medicine_name content. responses k),
       json_loads =
         (\<lambda>text. if text = paracetamol_text then Inr paracetamol_json
                  else if text = ''{}'' then Inr (JDict [])
                  else Inl (Exn JSONDecodeError ''Expecting value'')),
       py_str = (\<lambda>v. ''None'') \<rparr>"

text \<open>A backend that raises on its first two requests and answers the third.\<close>

definition two_failures :: "nat \<Rightarrow> exn + string" where
  "two_failures k =
     (if k < 2 then Inl (Exn OtherError ''503 Service Unavailable'') else Inr paracetamol_text)"

text \<open>
  The observations for a medicine whose search succeeds on \<open>suggestion_page\<close> and whose
  product page has the given content, and a session that starts and closes without an
  exception and makes the same observations for every medicine.
\<close>

definition found_item :: "string \<Rightarrow> item_obs" where
  "found_item html =
     \<lparr> search_obs = suggestion_page ''paracetamol'' 0 '''',
       actual_name = None,
       page_content = Inr html \<rparr>"

definition steady_session :: "item_obs \<Rightarrow> session" where
  "steady_session obs = \<lparr> launch = None, item = (\<lambda>i. obs), close = None \<rparr>"

text \<open>
  The record of that response once the orchestrator has attached the URL, and its entry in
  the returned mapping.
\<close>

definition paracetamol_info :: json where
  "paracetamol_info =
     JDict [(''medicine_name'', JStr ''Paracetamol''),
            (''description'', JStr ''Pain reliever''),
            (''key_benefits'', JList [JStr ''Relieves pain'', JStr ''Reduces fever'']),
            (''directions'', JStr ''After food''),
            (''safety_info'', JStr ''''),
            (''relevant_info'', JStr ''''),
            (''url'', JStr ''https://www.1mg.com/drugs/p'')]"

definition paracetamol_entry :: medicine_entry where
  "paracetamol_entry =
     \<lparr> description_field = JStr ''Pain reliever'',
       key_benefits_field = ''Relieves pain, Reduces fever'',
       directions_field = JStr ''After food'',
       safety_info_field = JStr '''',
       relevant_info_field = JStr '''',
       url_field = JStr ''https://www.1mg.com/drugs/p'' \<rparr>"











text \<open>
  A backend that answers its first request with the empty object and raises afterwards,
  and the entry of the record the Summarization Stage returns for a failed request.
\<close>

definition one_answer :: "nat \<Rightarrow> exn + string" where
  "one_answer k =
     (if k = 0 then Inr ''{}'' else Inl (Exn OtherError ''503 Service Unavailable''))"

definition failed_entry :: medicine_entry where
  "failed_entry =
     \<lparr> description_field = JStr ''Error extracting information: 503 Service Unavailable'',
       key_benefits_field = '''',
       directions_field = JStr '''',
       safety_info_field = JStr '''',
       relevant_info_field = JStr '''',
       url_field = JStr ''https://www.1mg.com/drugs/p'' \<rparr>"

section \<open>Properties of the newline collapse\<close>

lemma dropWhile_nl_start:
  "takeWhile (\<lambda>x. x = nl) (dropWhile (\<lambda>x. x = nl) s) = []"
  by (induction s) auto

lemma run_collapse_newlines:
  "length (takeWhile (\<lambda>x. x = nl) (collapse_newlines s)) =
     (if 3 \<le> length (takeWhile (\<lambda>x. x = nl) s) then 2
      else length (takeWhile (\<lambda>x. x = nl) s))"
proof (induction s rule: collapse_newlines.induct)
  case 1
  then show ?case by simp
next
  case (2 c cs)
  show ?case
  proof (cases "3 \<le> length (takeWhile (\<lambda>x. x = nl) (c # cs))")
    case True
    have "takeWhile (\<lambda>x. x = nl)
        (collapse_newlines (dropWhile (\<lambda>x. x = nl) (c # cs))) = []"
      using 2(1)[OF True] dropWhile_nl_start[of "c # cs"] by simp
    then have "length (takeWhile (\<lambda>x. x = nl)
        (nl # nl # collapse_newlines (dropWhile (\<lambda>x. x = nl) (c # cs)))) = 2"
      by simp
    with True show ?thesis by (simp del: takeWhile.simps dropWhile.simps)
  next
    case False
    with 2 show ?thesis by (auto split: if_splits)
  qed
qed

lemma collapse_newlines_idem:
  "collapse_newlines (collapse_newlines s) = collapse_newlines s"
proof (induction s rule: collapse_newlines.induct)
  case 1
  then show ?case by simp
next
  case (2 c cs)
  show ?case
  proof (cases "3 \<le> length (takeWhile (\<lambda>x. x = nl) (c # cs))")
    case True
    let ?R = "collapse_newlines (dropWhile (\<lambda>x. x = nl) (c # cs))"
    have r0: "length (takeWhile (\<lambda>x. x = nl) ?R) = 0"
      using run_collapse_newlines[of "dropWhile (\<lambda>x. x = nl) (c # cs)"]
        dropWhile_nl_start[of "c # cs"] by simp
    have ih: "collapse_newlines ?R = ?R" using 2(1)[OF True] .
    have "collapse_newlines (nl # nl # ?R) = nl # nl # ?R"
      using r0 ih by simp
    with True show ?thesis by (simp del: takeWhile.simps dropWhile.simps)
  next
    case False
    have ih: "collapse_newlines (collapse_newlines cs) = collapse_newlines cs"
      using 2(2)[OF False] .
    have "length (takeWhile (\<lambda>x. x = nl) (c # collapse_newlines cs)) < 3"
      using False run_collapse_newlines[of cs] by (auto split: if_splits)
    then have "collapse_newlines (c # collapse_newlines cs) = c # collapse_newlines cs"
      using ih by (simp del: takeWhile.simps)
    with False show ?thesis by (simp del: takeWhile.simps dropWhile.simps)
  qed
qed

lemma takeWhile_nl_append:
  assumes "x \<in> set p" and "x \<noteq> nl"
  shows "takeWhile (\<lambda>x. x = nl) (p @ s) = takeWhile (\<lambda>x. x = nl) p"
    and "dropWhile (\<lambda>x. x = nl) (p @ s) = dropWhile (\<lambda>x. x = nl) p @ s"
  using assms by (induction p) auto

lemma last_dropWhile_nl:
  assumes "p \<noteq> []" and "last p \<noteq> nl"
  shows "dropWhile (\<lambda>x. x = nl) p \<noteq> [] \<and> last (dropWhile (\<lambda>x. x = nl) p) = last p"
  using assms by (induction p) auto

lemma collapse_newlines_append:
  "p = [] \<or> last p \<noteq> nl \<Longrightarrow>
     collapse_newlines (p @ s) = collapse_newlines p @ collapse_newlines s"
proof (induction p rule: collapse_newlines.induct)
  case 1
  then show ?case by simp
next
  case (2 c cs)
  have lastp: "last (c # cs) \<noteq> nl" using 2(3) by simp
  have ex: "last (c # cs) \<in> set (c # cs)" by (rule last_in_set) simp
  have tw: "takeWhile (\<lambda>x. x = nl) ((c # cs) @ s) = takeWhile (\<lambda>x. x = nl) (c # cs)"
    by (rule takeWhile_nl_append(1)[OF ex lastp])
  have dw: "dropWhile (\<lambda>x. x = nl) ((c # cs) @ s) = dropWhile (\<lambda>x. x = nl) (c # cs) @ s"
    by (rule takeWhile_nl_append(2)[OF ex lastp])
  have unf: "collapse_newlines ((c # cs) @ s) =
     (if 3 \<le> length (takeWhile (\<lambda>x. x = nl) (c # cs))
      then [nl, nl] @ collapse_newlines (dropWhile (\<lambda>x. x = nl) (c # cs) @ s)
      else c # collapse_newlines (cs @ s))"
    using tw dw collapse_newlines.simps(2)[of c "cs @ s"] by (simp only: append_Cons)
  show ?case
  proof (cases "3 \<le> length (takeWhile (\<lambda>x. x = nl) (c # cs))")
    case True
    have d: "dropWhile (\<lambda>x. x = nl) (c # cs) = [] \<or>
        last (dropWhile (\<lambda>x. x = nl) (c # cs)) \<noteq> nl"
      using last_dropWhile_nl[of "c # cs"] lastp by simp
    have "collapse_newlines ((c # cs) @ s) =
        [nl, nl] @ collapse_newlines (dropWhile (\<lambda>x. x = nl) (c # cs)) @ collapse_newlines s"
      using unf True 2(1)[OF True d] by (simp only: if_True)
    moreover have "collapse_newlines (c # cs) =
        [nl, nl] @ collapse_newlines (dropWhile (\<lambda>x. x = nl) (c # cs))"
      using True collapse_newlines.simps(2)[of c cs] by (simp only: if_True)
    ultimately show ?thesis by (simp only: append_assoc)
  next
    case False
    have tl: "cs = [] \<or> last cs \<noteq> nl" using lastp by (cases cs) auto
    have "collapse_newlines ((c # cs) @ s) = c # collapse_newlines cs @ collapse_newlines s"
      using unf False 2(2)[OF False tl] by (simp only: if_False)
    moreover have "collapse_newlines (c # cs) = c # collapse_newlines cs"
      using False collapse_newlines.simps(2)[of c cs] by (simp only: if_False)
    ultimately show ?thesis by (simp only: append_Cons)
  qed
qed


lemma collapse_newlines_nl_run:
  assumes "3 \<le> k" and "q = [] \<or> hd q \<noteq> nl"
  shows "collapse_newlines (replicate k nl @ q) = [nl, nl] @ collapse_newlines q"
proof -
  obtain k' where k: "k = Suc k'" using assms(1) by (cases k) auto
  have tq: "takeWhile (\<lambda>x. x = nl) q = []" using assms(2) by (cases q) auto
  have dq: "dropWhile (\<lambda>x. x = nl) q = q" using assms(2) by (cases q) auto
  have tw: "takeWhile (\<lambda>x. x = nl) (replicate k nl @ q) = replicate k nl"
    using tq by (induction k) auto
  have dw: "dropWhile (\<lambda>x. x = nl) (replicate k nl @ q) = q"
    using dq by (induction k) auto
  have len: "3 \<le> length (takeWhile (\<lambda>x. x = nl) (nl # (replicate k' nl @ q)))"
    using tw assms(1) unfolding k by simp
  have "collapse_newlines (nl # (replicate k' nl @ q)) =
      [nl, nl] @ collapse_newlines (dropWhile (\<lambda>x. x = nl) (nl # (replicate k' nl @ q)))"
    using len collapse_newlines.simps(2)[of nl "replicate k' nl @ q"] by (simp only: if_True)
  then show ?thesis using dw unfolding k by (simp only: replicate_Suc append_Cons)
qed

lemma collapse_newlines_no_nl:
  "nl \<notin> set s \<Longrightarrow> collapse_newlines s = s"
  by (induction s) auto

text \<open>
  Claim C9. A run of three or more newline characters between two paragraphs (so also
  every run of three or more blank lines) is replaced by exactly two newlines, that is
  one blank line, and the paragraphs themselves are collapsed independently; collapsing
  a second time changes nothing.
\<close>

theorem collapse_newlines_blank_lines_idempotent:
  "(3 \<le> k \<and> (p = [] \<or> last p \<noteq> nl) \<and> (q = [] \<or> hd q \<noteq> nl) \<longrightarrow>
      collapse_newlines (p @ replicate k nl @ q) =
        collapse_newlines p @ [nl, nl] @ collapse_newlines q)
   \<and> collapse_newlines (collapse_newlines s) = collapse_newlines s"
proof (intro conjI impI)
  assume h: "3 \<le> k \<and> (p = [] \<or> last p \<noteq> nl) \<and> (q = [] \<or> hd q \<noteq> nl)"
  have "collapse_newlines (p @ replicate k nl @ q) =
      collapse_newlines p @ collapse_newlines (replicate k nl @ q)"
    using h by (intro collapse_newlines_append) blast
  also have "\<dots> = collapse_newlines p @ [nl, nl] @ collapse_newlines q"
    using h collapse_newlines_nl_run[of k q] by (simp only:)
  finally show "collapse_newlines (p @ replicate k nl @ q) =
      collapse_newlines p @ [nl, nl] @ collapse_newlines q" .
next
  show "collapse_newlines (collapse_newlines s) = collapse_newlines s"
    by (rule collapse_newlines_idem)
qed

theorem collapse_newlines_blank_lines_idempotent_witness:
  "collapse_newlines (''Uses'' @ replicate 5 nl @ ''Dosage'') = ''Uses'' @ [nl, nl] @ ''Dosage''
   \<and> collapse_newlines (collapse_newlines (''Uses'' @ replicate 5 nl @ ''Dosage'')) =
       collapse_newlines (''Uses'' @ replicate 5 nl @ ''Dosage'')"
proof -
  have a: "collapse_newlines ''Uses'' = ''Uses''"
    by (rule collapse_newlines_no_nl) (simp add: nl_def)
  have b: "collapse_newlines ''Dosage'' = ''Dosage''"
    by (rule collapse_newlines_no_nl) (simp add: nl_def)
  have c: "last ''Uses'' \<noteq> nl" "hd ''Dosage'' \<noteq> nl" by (simp_all add: nl_def)
  have d: "(3::nat) \<le> 5" by simp
  note t = collapse_newlines_blank_lines_idempotent[of 5 "''Uses''" "''Dosage''"
      "''Uses'' @ replicate 5 nl @ ''Dosage''"]
  from t c d have "collapse_newlines (''Uses'' @ replicate 5 nl @ ''Dosage'') =
      collapse_newlines ''Uses'' @ [nl, nl] @ collapse_newlines ''Dosage''"
    by blast
  then have e1: "collapse_newlines (''Uses'' @ replicate 5 nl @ ''Dosage'') =
      ''Uses'' @ [nl, nl] @ ''Dosage''"
    unfolding a b .
  from t have e2: "collapse_newlines (collapse_newlines (''Uses'' @ replicate 5 nl @ ''Dosage'')) =
       collapse_newlines (''Uses'' @ replicate 5 nl @ ''Dosage'')"
    by blast
  from e1 e2 show ?thesis by (rule conjI)
qed

section \<open>Properties of the Site Selector\<close>

lemma scan_links_none:
  "\<forall>l \<in> set ls. \<not> link_matches d l \<Longrightarrow> scan_links d ls = None"
  by (induction ls) (auto simp: try_link_def link_matches_def split: sum.splits option.splits)

lemma scan_domains_none:
  "\<forall>d \<in> set ds. \<forall>l \<in> set ls. \<not> link_matches d l \<Longrightarrow> scan_domains ds ls = None"
  by (induction ds) (auto simp: scan_links_none)

lemma select_body_listed:
  "wait_for_h3 page = None \<Longrightarrow> h3_links page = Inr ls \<Longrightarrow>
   select_body page =
     (case scan_domains preferred_domains ls of
        Some u \<Rightarrow> Inr (Some u)
      | None \<Rightarrow> select_first_result ls)"
  by (simp add: select_body_def)

lemma select_first_result_returns: "\<exists>r. select_first_result ls = Inr r"
  by (simp add: select_first_result_def split: sum.splits)

lemma select_medication_website_returns: "\<exists>r. select_medication_website page = Inr r"
  by (simp add: select_medication_website_def split: sum.splits)

lemma loaded_page_simps:
  "wait_for_h3 (loaded_page ls) = None" "h3_links (loaded_page ls) = Inr ls"
  by (simp_all add: loaded_page_def)

lemma scan_domains_no_results: "scan_domains ds [] = None"
  by (induction ds) auto

lemma try_link_opens:
  "try_link d l = Inr (Some u) \<longleftrightarrow> link_matches d l \<and> click l = Inr u"
  by (auto simp: try_link_def link_matches_def split: sum.splits option.splits)

lemma scan_links_skipped:
  "\<forall>l \<in> set ls. link_matches d l \<longrightarrow> isl (click l) \<Longrightarrow> scan_links d ls = None"
proof (induction ls)
  case Nil
  then show ?case by simp
next
  case (Cons l ls)
  have "\<forall>u. try_link d l \<noteq> Inr (Some u)"
    using Cons.prems by (auto simp: try_link_opens)
  then have "scan_links d (l # ls) = scan_links d ls"
    by (cases "try_link d l") (auto split: option.splits)
  then show ?case using Cons by simp
qed

lemma scan_links_first_opened:
  "i < length ls \<Longrightarrow> link_matches d (ls ! i) \<Longrightarrow> click (ls ! i) = Inr u \<Longrightarrow>
   \<forall>i' < i. link_matches d (ls ! i') \<longrightarrow> isl (click (ls ! i')) \<Longrightarrow>
   scan_links d ls = Some u"
proof (induction ls arbitrary: i)
  case Nil
  then show ?case by simp
next
  case (Cons l ls)
  show ?case
  proof (cases i)
    case 0
    then have "try_link d l = Inr (Some u)"
      using Cons.prems by (simp add: try_link_opens)
    then show ?thesis by simp
  next
    case (Suc k)
    have "link_matches d l \<longrightarrow> isl (click l)" using Cons.prems(4) Suc by auto
    then have "\<forall>u. try_link d l \<noteq> Inr (Some u)" by (auto simp: try_link_opens)
    then have skip: "scan_links d (l # ls) = scan_links d ls"
      by (cases "try_link d l") (auto split: option.splits)
    have "scan_links d ls = Some u"
    proof (rule Cons.IH[of k])
      show "k < length ls" using Cons.prems(1) Suc by simp
      show "link_matches d (ls ! k)" using Cons.prems(2) Suc by simp
      show "click (ls ! k) = Inr u" using Cons.prems(3) Suc by simp
      show "\<forall>i'<k. link_matches d (ls ! i') \<longrightarrow> isl (click (ls ! i'))"
        using Cons.prems(4) Suc by auto
    qed
    then show ?thesis using skip by simp
  qed
qed

lemma scan_domains_skipped:
  "\<forall>d \<in> set ds. scan_links d ls = None \<Longrightarrow> scan_domains ds ls = None"
  by (induction ds) auto

lemma scan_domains_first_opened:
  "j < length ds \<Longrightarrow> scan_links (ds ! j) ls = Some u \<Longrightarrow>
   \<forall>j' < j. scan_links (ds ! j') ls = None \<Longrightarrow> scan_domains ds ls = Some u"
proof (induction ds arbitrary: j)
  case Nil
  then show ?case by simp
next
  case (Cons d ds)
  show ?case
  proof (cases j)
    case 0
    with Cons.prems show ?thesis by simp
  next
    case (Suc k)
    have "scan_links d ls = None" using Cons.prems(3) Suc by auto
    moreover have "scan_domains ds ls = Some u"
    proof (rule Cons.IH[of k])
      show "k < length ds" using Cons.prems(1) Suc by simp
      show "scan_links (ds ! k) ls = Some u" using Cons.prems(2) Suc by simp
      show "\<forall>j'<k. scan_links (ds ! j') ls = None" using Cons.prems(3) Suc by auto
    qed
    ultimately show ?thesis by simp
  qed
qed

text \<open>
  Claim C5 (amended). On a results page that has loaded, the selector scans the preferred
  domains in list order and, for each, the results in page order, and returns the URL
  reached through the first result that matches the domain and whose click succeeds: a
  matching result whose click raises is passed over, and whatever stands before the
  chosen result on the page does not matter. When every result that matches a preferred
  domain has a click that raises, and so also when no result matches any, it returns the
  URL the click on the first result leads to.
\<close>

theorem select_medication_website_priority:
  assumes "wait_for_h3 page = None" and "h3_links page = Inr ls"
  shows "(j < length preferred_domains \<and> i < length ls
            \<and> link_matches (preferred_domains ! j) (ls ! i)
            \<and> click (ls ! i) = Inr u
            \<and> (\<forall>i' < i. link_matches (preferred_domains ! j) (ls ! i') \<longrightarrow>
                  isl (click (ls ! i')))
            \<and> (\<forall>j' < j. \<forall>l \<in> set ls. link_matches (preferred_domains ! j') l \<longrightarrow>
                  isl (click l))
          \<longrightarrow> select_medication_website page = Inr (Some u))
       \<and> ((\<forall>d \<in> set preferred_domains. \<forall>l \<in> set ls. link_matches d l \<longrightarrow> isl (click l))
            \<and> ls = l0 # rest \<and> click l0 = Inr u0
          \<longrightarrow> select_medication_website page = Inr (Some u0))"
proof (intro conjI impI)
  assume h: "j < length preferred_domains \<and> i < length ls
            \<and> link_matches (preferred_domains ! j) (ls ! i)
            \<and> click (ls ! i) = Inr u
            \<and> (\<forall>i' < i. link_matches (preferred_domains ! j) (ls ! i') \<longrightarrow>
                  isl (click (ls ! i')))
            \<and> (\<forall>j' < j. \<forall>l \<in> set ls. link_matches (preferred_domains ! j') l \<longrightarrow>
                  isl (click l))"
  have "scan_links (preferred_domains ! j) ls = Some u"
    using h by (intro scan_links_first_opened[of i]) blast+
  moreover have "scan_links (preferred_domains ! j') ls = None" if "j' < j" for j'
  proof (rule scan_links_skipped)
    show "\<forall>l \<in> set ls. link_matches (preferred_domains ! j') l \<longrightarrow> isl (click l)"
      using h that by blast
  qed
  ultimately have "scan_domains preferred_domains ls = Some u"
    using h by (intro scan_domains_first_opened[of j]) blast+
  then show "select_medication_website page = Inr (Some u)"
    using select_body_listed[OF assms] by (simp add: select_medication_website_def)
next
  assume h: "(\<forall>d \<in> set preferred_domains. \<forall>l \<in> set ls. link_matches d l \<longrightarrow> isl (click l))
            \<and> ls = l0 # rest \<and> click l0 = Inr u0"
  have "scan_links d ls = None" if "d \<in> set preferred_domains" for d
  proof (rule scan_links_skipped)
    show "\<forall>l \<in> set ls. link_matches d l \<longrightarrow> isl (click l)"
      using h that by blast
  qed
  then have "scan_domains preferred_domains ls = None"
    by (intro scan_domains_skipped) blast
  moreover have "select_first_result ls = Inr (Some u0)"
    using h by (simp add: select_first_result_def click_first_def)
  ultimately show "select_medication_website page = Inr (Some u0)"
    using select_body_listed[OF assms] by (simp add: select_medication_website_def)
qed

theorem select_medication_website_priority_witness:
  "select_medication_website
     (loaded_page [result_link ''https://unknown.example/x'' ''https://unknown.example/x'',
                   dead_link ''https://1mg.com/a'',
                   result_link ''https://1mg.com/y'' ''https://1mg.com/y''])
     = Inr (Some ''https://1mg.com/y'')
   \<and> select_medication_website
     (loaded_page [result_link ''https://unknown.example/x'' ''https://unknown.example/x'',
                   result_link ''https://other.example/z'' ''https://other.example/z''])
     = Inr (Some ''https://unknown.example/x'')"
proof -
  let ?a = "result_link ''https://unknown.example/x'' ''https://unknown.example/x''"
  let ?d = "dead_link ''https://1mg.com/a''"
  let ?b = "result_link ''https://1mg.com/y'' ''https://1mg.com/y''"
  let ?c = "result_link ''https://other.example/z'' ''https://other.example/z''"
  have m: "link_matches ''1mg.com'' ?b"
    by (simp add: link_matches_def result_link_def)
  have na: "\<forall>d \<in> set preferred_domains. \<not> link_matches d ?a"
    by (simp add: preferred_domains_def link_matches_def result_link_def)
  have nc: "\<forall>d \<in> set preferred_domains. \<not> link_matches d ?c"
    by (simp add: preferred_domains_def link_matches_def result_link_def)
  have p0: "preferred_domains ! 0 = ''1mg.com''" "0 < length preferred_domains"
    by (simp_all add: preferred_domains_def)
  have cb: "click ?b = Inr ''https://1mg.com/y''" "click ?a = Inr ''https://unknown.example/x''"
    by (simp_all add: result_link_def)
  have cd: "isl (click ?d)" by (simp add: dead_link_def)
  have na0: "\<not> link_matches ''1mg.com'' ?a"
    by (simp add: link_matches_def result_link_def)
  have first: "\<forall>i' < (2::nat). link_matches (preferred_domains ! 0) ([?a, ?d, ?b] ! i') \<longrightarrow>
      isl (click ([?a, ?d, ?b] ! i'))"
  proof (intro allI impI)
    fix i' :: nat
    assume "i' < 2" and lm: "link_matches (preferred_domains ! 0) ([?a, ?d, ?b] ! i')"
    then consider "i' = 0" | "i' = 1" by linarith
    then show "isl (click ([?a, ?d, ?b] ! i'))"
    proof cases
      case 1
      then show ?thesis using lm na0 p0 by simp
    next
      case 2
      then show ?thesis using cd by simp
    qed
  qed
  have one: "select_medication_website (loaded_page [?a, ?d, ?b]) = Inr (Some ''https://1mg.com/y'')"
    using select_medication_website_priority[OF loaded_page_simps, of 0 2 "[?a, ?d, ?b]"
        "''https://1mg.com/y''" ?a "[]" "''''"] m p0 cb first
    by simp
  have two: "select_medication_website (loaded_page [?a, ?c]) = Inr (Some ''https://unknown.example/x'')"
    using select_medication_website_priority[OF loaded_page_simps, of 0 0 "[?a, ?c]"
        "''''" ?a "[?c]" "''https://unknown.example/x''"] na nc cb
    by simp
  from one two show ?thesis by (rule conjI)
qed

text \<open>
  The claim as it stands fails here: the second result is on the preferred domain
  \<^verbatim>\<open>1mg.com\<close>, its click raises, and the selector returns the first result, which is on
  no preferred domain.
\<close>

theorem select_medication_website_first_result_despite_match:
  "link_matches ''1mg.com'' (dead_link ''https://1mg.com/y'')
   \<and> ''1mg.com'' \<in> set preferred_domains
   \<and> select_medication_website
        (loaded_page [result_link ''https://unknown.example/x'' ''https://unknown.example/x'',
                      dead_link ''https://1mg.com/y''])
       = Inr (Some ''https://unknown.example/x'')"
  by (simp add: select_medication_website_def select_body_def loaded_page_def dead_link_def
      result_link_def preferred_domains_def try_link_def link_matches_def
      select_first_result_def click_first_def)

text \<open>
  Claim C6 (amended). The selector never raises. It returns \<^verbatim>\<open>None\<close> when the wait for
  the results raises, when listing them raises, when the list is empty, and when no
  preferred result was navigated to and the click on the first result raises. An exception
  while one result is tried for a preferred domain is caught and the scan goes on with the
  next result.
\<close>

theorem select_medication_website_never_raises:
  "(\<exists>r. select_medication_website page = Inr r)
   \<and> (wait_for_h3 page \<noteq> None \<longrightarrow> select_medication_website page = Inr None)
   \<and> (isl (h3_links page) \<longrightarrow> select_medication_website page = Inr None)
   \<and> (wait_for_h3 page = None \<and> h3_links page = Inr [] \<longrightarrow>
        select_medication_website page = Inr None)
   \<and> (wait_for_h3 page = None \<and> h3_links page = Inr (l # ls)
        \<and> scan_domains preferred_domains (l # ls) = None \<and> isl (click l) \<longrightarrow>
        select_medication_website page = Inr None)
   \<and> (isl (try_link d l) \<longrightarrow> scan_links d (l # ls) = scan_links d ls)"
proof (intro conjI impI)
  show "\<exists>r. select_medication_website page = Inr r"
    by (rule select_medication_website_returns)
next
  assume "wait_for_h3 page \<noteq> None"
  then show "select_medication_website page = Inr None"
    by (auto simp: select_medication_website_def select_body_def)
next
  assume "isl (h3_links page)"
  then show "select_medication_website page = Inr None"
    by (auto simp: select_medication_website_def select_body_def isl_def split: option.splits)
next
  assume "wait_for_h3 page = None \<and> h3_links page = Inr []"
  then show "select_medication_website page = Inr None"
    by (simp add: select_medication_website_def select_body_def select_first_result_def
        click_first_def scan_domains_no_results)
next
  assume "wait_for_h3 page = None \<and> h3_links page = Inr (l # ls)
        \<and> scan_domains preferred_domains (l # ls) = None \<and> isl (click l)"
  then show "select_medication_website page = Inr None"
    by (auto simp: select_medication_website_def select_body_def select_first_result_def
        click_first_def isl_def)
next
  assume "isl (try_link d l)"
  then show "scan_links d (l # ls) = scan_links d ls"
    by (auto simp: isl_def)
qed

theorem select_medication_website_never_raises_witness:
  "select_medication_website (loaded_page []) = Inr None
   \<and> select_medication_website
        (loaded_page [dead_link ''https://unknown.example/x'']) = Inr None
   \<and> select_medication_website
        \<lparr> wait_for_h3 = Some (Exn TimeoutError ''Timeout 60000ms exceeded''),
          h3_links = Inr [] \<rparr> = Inr None
   \<and> select_medication_website
        \<lparr> wait_for_h3 = None,
          h3_links = Inl (Exn OtherError ''Target page has been closed'') \<rparr> = Inr None
   \<and> scan_links ''1mg.com''
        [dead_link ''https://www.1mg.com/drugs/a'',
         result_link ''https://www.1mg.com/drugs/b'' ''https://www.1mg.com/drugs/b'']
       = scan_links ''1mg.com''
           [result_link ''https://www.1mg.com/drugs/b'' ''https://www.1mg.com/drugs/b'']"
proof -
  let ?d = "dead_link ''https://unknown.example/x''"
  let ?w = "\<lparr> wait_for_h3 = Some (Exn TimeoutError ''Timeout 60000ms exceeded''),
          h3_links = Inr [] \<rparr>"
  let ?c = "\<lparr> wait_for_h3 = None,
          h3_links = Inl (Exn OtherError ''Target page has been closed'') \<rparr>"
  let ?a = "dead_link ''https://www.1mg.com/drugs/a''"
  let ?b = "result_link ''https://www.1mg.com/drugs/b'' ''https://www.1mg.com/drugs/b''"
  have nd: "\<forall>d \<in> set preferred_domains. \<not> link_matches d ?d"
    by (simp add: preferred_domains_def link_matches_def dead_link_def)
  have sc: "scan_domains preferred_domains [?d] = None"
    using nd by (intro scan_domains_none) simp
  have cl: "isl (click ?d)" by (simp add: dead_link_def)
  have tl: "isl (try_link ''1mg.com'' ?a)" by (simp add: try_link_def dead_link_def)
  have a: "select_medication_website (loaded_page []) = Inr None"
    using select_medication_website_never_raises[of "loaded_page []"] loaded_page_simps[of "[]"]
    by blast
  have b: "select_medication_website (loaded_page [?d]) = Inr None"
    using select_medication_website_never_raises[of "loaded_page [?d]" ?d "[]"]
      loaded_page_simps[of "[?d]"] sc cl
    by blast
  have c: "select_medication_website ?w = Inr None"
    using select_medication_website_never_raises[of ?w] by simp
  have d: "select_medication_website ?c = Inr None"
    using select_medication_website_never_raises[of ?c] by simp
  have e: "scan_links ''1mg.com'' [?a, ?b] = scan_links ''1mg.com'' [?b]"
    using select_medication_website_never_raises[of ?c ?a "[?b]" "''1mg.com''"] tl by blast
  from a b c d e show ?thesis by blast
qed

text \<open>
  The claim as it stands fails here: the click on the first result of the preferred
  domain raises, and the selector goes on to the second and returns its URL, not
  \<^verbatim>\<open>None\<close>.
\<close>

theorem select_medication_website_failure_not_null:
  "isl (click (dead_link ''https://www.1mg.com/drugs/a''))
   \<and> select_medication_website
        (loaded_page [dead_link ''https://www.1mg.com/drugs/a'',
                      result_link ''https://www.1mg.com/drugs/b'' ''https://www.1mg.com/drugs/b''])
       = Inr (Some ''https://www.1mg.com/drugs/b'')"
  by (simp add: select_medication_website_def select_body_def loaded_page_def dead_link_def
      result_link_def preferred_domains_def try_link_def)

section \<open>Properties of the Medicine Search Stage\<close>

lemma search_single_medicine_steps:
  assumes "open_results page q = None"
    and "did_you_mean_step page q = Inr c1"
    and "showing_results_step page c1 = Inr c2"
  shows "\<exists>u. search_single_medicine page q = Inr (c2, u)"
proof -
  obtain r where r: "select_medication_website (results_view page) = Inr r"
    using select_medication_website_returns by blast
  show ?thesis
    using assms r by (simp add: search_single_medicine_def)
qed

lemma open_results_suggestion_page:
  "open_results (suggestion_page s n c) q = None"
  by (simp add: open_results_def suggestion_page_def search_selectors_def)

text \<open>
  Claim C8 (amended). Let the stage reach the results page, and let the two presence
  checks not raise. If a "Showing results for" element is present and its correction is
  read, the corrected name is that correction. Otherwise, if the "Did you mean" link is
  visible and its suggestion is read, the corrected name is the suggestion. Otherwise it
  is the original query.
\<close>

theorem search_single_medicine_corrected_name:
  assumes "open_results page q = None"
    and "did_you_mean_visible page = Inr dv"
    and "showing_results_count page = Inr n"
  shows "(n > 0 \<and> correction_text page = Inr c \<longrightarrow>
            (\<exists>u. search_single_medicine page q = Inr (c, u)))
       \<and> ((n = 0 \<or> isl (correction_text page)) \<and> dv \<and> suggestion_text page = Inr s \<longrightarrow>
            (\<exists>u. search_single_medicine page q = Inr (s, u)))
       \<and> ((n = 0 \<or> isl (correction_text page)) \<and> (\<not> dv \<or> isl (suggestion_text page)) \<longrightarrow>
            (\<exists>u. search_single_medicine page q = Inr (q, u)))"
proof (intro conjI impI)
  obtain c1 where c1: "did_you_mean_step page q = Inr c1"
    using assms(2) by (cases dv) (simp_all add: did_you_mean_step_def)
  assume "n > 0 \<and> correction_text page = Inr c"
  then have "showing_results_step page c1 = Inr c"
    using assms(3) by (simp add: showing_results_step_def)
  then show "\<exists>u. search_single_medicine page q = Inr (c, u)"
    using search_single_medicine_steps[OF assms(1) c1] by blast
next
  assume h: "(n = 0 \<or> isl (correction_text page)) \<and> dv \<and> suggestion_text page = Inr s"
  have c1: "did_you_mean_step page q = Inr s"
    using assms(2) h by (simp add: did_you_mean_step_def did_you_mean_body_def)
  have "showing_results_step page s = Inr s"
    using assms(3) h by (auto simp: showing_results_step_def isl_def)
  then show "\<exists>u. search_single_medicine page q = Inr (s, u)"
    using search_single_medicine_steps[OF assms(1) c1] by blast
next
  assume h: "(n = 0 \<or> isl (correction_text page)) \<and> (\<not> dv \<or> isl (suggestion_text page))"
  have c1: "did_you_mean_step page q = Inr q"
    using assms(2) h by (cases dv) (auto simp: did_you_mean_step_def did_you_mean_body_def isl_def)
  have "showing_results_step page q = Inr q"
    using assms(3) h by (auto simp: showing_results_step_def isl_def)
  then show "\<exists>u. search_single_medicine page q = Inr (q, u)"
    using search_single_medicine_steps[OF assms(1) c1] by blast
qed

theorem search_single_medicine_corrected_name_witness:
  "(\<exists>u. search_single_medicine (suggestion_page ''paracetamol'' 0 '''') ''paracetamo''
          = Inr (''paracetamol'', u))
   \<and> (\<exists>u. search_single_medicine (suggestion_page ''paracetamol'' 1 ''paracetamol 500'')
            ''paracetamo'' = Inr (''paracetamol 500'', u))
   \<and> (\<exists>u. search_single_medicine
            ((suggestion_page '''' 0 '''') \<lparr> did_you_mean_visible := Inr False \<rparr>)
            ''paracetamol'' = Inr (''paracetamol'', u))"
proof -
  let ?p = "suggestion_page ''paracetamol'' 0 ''''"
  let ?p1 = "suggestion_page ''paracetamol'' 1 ''paracetamol 500''"
  let ?p2 = "(suggestion_page '''' 0 '''') \<lparr> did_you_mean_visible := Inr False \<rparr>"
  have o2: "open_results ?p2 ''paracetamol'' = None"
    by (simp add: open_results_def suggestion_page_def search_selectors_def)
  have a: "\<exists>u. search_single_medicine ?p ''paracetamo'' = Inr (''paracetamol'', u)"
    using search_single_medicine_corrected_name[of ?p "''paracetamo''" True 0 "''''" "''paracetamol''"]
      open_results_suggestion_page[of "''paracetamol''" 0 "''''" "''paracetamo''"]
    by (simp add: suggestion_page_def)
  have b: "\<exists>u. search_single_medicine ?p1 ''paracetamo'' = Inr (''paracetamol 500'', u)"
    using search_single_medicine_corrected_name[of ?p1 "''paracetamo''" True 1
        "''paracetamol 500''" "''paracetamol''"]
      open_results_suggestion_page[of "''paracetamol''" 1 "''paracetamol 500''" "''paracetamo''"]
    by (simp add: suggestion_page_def)
  have c: "\<exists>u. search_single_medicine ?p2 ''paracetamol'' = Inr (''paracetamol'', u)"
    using search_single_medicine_corrected_name[of ?p2 "''paracetamol''" False 0 "''''" "''''"] o2
    by (simp add: suggestion_page_def)
  from a b c show ?thesis by blast
qed

text \<open>
  The claim as it stands fails here: the page shows a "Did you mean" suggestion,
  \<open>paracetamol\<close>, and the stage returns another corrected name, because the "Showing
  results for" branch runs after it and overwrites the name.
\<close>

theorem search_single_medicine_suggestion_overwritten:
  "did_you_mean_visible (suggestion_page ''paracetamol'' 1 ''paracetamol 500'') = Inr True
   \<and> suggestion_text (suggestion_page ''paracetamol'' 1 ''paracetamol 500'') = Inr ''paracetamol''
   \<and> search_single_medicine (suggestion_page ''paracetamol'' 1 ''paracetamol 500'') ''paracetamo''
       = Inr (''paracetamol 500'', Some ''https://www.1mg.com/drugs/p'')"
  by (simp add: search_single_medicine_def open_results_def suggestion_page_def
      search_selectors_def did_you_mean_step_def did_you_mean_body_def showing_results_step_def
      select_medication_website_def select_body_def loaded_page_def result_link_def
      preferred_domains_def try_link_def)

section \<open>Properties of the Summarization Stage\<close>

lemma extract_medicine_info_once_returns:
  "\<exists>r. extract_medicine_info_once env k content name = (Inr r, Suc k)"
  by (simp add: extract_medicine_info_once_def split: sum.splits)

lemma on_exception_returned:
  "target k = (Inr r, k') \<Longrightarrow> on_exception m target t k = (Inr r, k')"
  by (subst on_exception.simps) simp

lemma extract_medicine_info_no_retry:
  "extract_medicine_info env k content name = extract_medicine_info_once env k content name"
proof -
  obtain r where r: "extract_medicine_info_once env k content name = (Inr r, Suc k)"
    using extract_medicine_info_once_returns by blast
  show ?thesis
    unfolding extract_medicine_info_def
    using on_exception_returned[of "\<lambda>k. extract_medicine_info_once env k content name" k r "Suc k" 3 0] r
    by simp
qed

lemma fill_required_dict:
  "\<exists>kvs'. fill_required keys (JDict kvs) = Inr (JDict kvs')
     \<and> (\<forall>key. map_of kvs' key =
           (if key \<in> set keys \<and> map_of kvs key = None
            then Some (if key = ''key_benefits'' then JList [] else JStr '''')
            else map_of kvs key))"
proof (induction keys arbitrary: kvs)
  case Nil
  then show ?case by simp
next
  case (Cons a keys)
  show ?case
  proof (cases "map_of kvs a = None")
    case False
    obtain kvs' where k: "fill_required keys (JDict kvs) = Inr (JDict kvs')"
      "\<forall>key. map_of kvs' key =
           (if key \<in> set keys \<and> map_of kvs key = None
            then Some (if key = ''key_benefits'' then JList [] else JStr '''')
            else map_of kvs key)"
      using Cons.IH[of kvs] by blast
    have "fill_required (a # keys) (JDict kvs) = Inr (JDict kvs')"
      using False k(1) by simp
    moreover have "\<forall>key. map_of kvs' key =
           (if key \<in> set (a # keys) \<and> map_of kvs key = None
            then Some (if key = ''key_benefits'' then JList [] else JStr '''')
            else map_of kvs key)"
      using k(2) False by auto
    ultimately show ?thesis by blast
  next
    case True
    let ?v = "if a = ''key_benefits'' then JList [] else JStr ''''"
    let ?kvs1 = "AList.update a ?v kvs"
    obtain kvs' where k: "fill_required keys (JDict ?kvs1) = Inr (JDict kvs')"
      "\<forall>key. map_of kvs' key =
           (if key \<in> set keys \<and> map_of ?kvs1 key = None
            then Some (if key = ''key_benefits'' then JList [] else JStr '''')
            else map_of ?kvs1 key)"
      using Cons.IH[of ?kvs1] by blast
    have "fill_required (a # keys) (JDict kvs) = Inr (JDict kvs')"
      using True k(1) by simp
    moreover have "\<forall>key. map_of kvs' key =
           (if key \<in> set (a # keys) \<and> map_of kvs key = None
            then Some (if key = ''key_benefits'' then JList [] else JStr '''')
            else map_of kvs key)"
    proof
      fix key
      show "map_of kvs' key =
           (if key \<in> set (a # keys) \<and> map_of kvs key = None
            then Some (if key = ''key_benefits'' then JList [] else JStr '''')
            else map_of kvs key)"
        using k(2)[rule_format, of key] True
        by (cases "key = a") (simp_all add: update_conv')
    qed
    ultimately show ?thesis by blast
  qed
qed

lemma fill_medicine_name_dict:
  "\<exists>kvs'. fill_medicine_name (JDict kvs) name = Inr (JDict kvs')
     \<and> (\<forall>key. map_of kvs' key =
           (if key = ''medicine_name''
               \<and> (case map_of kvs key of None \<Rightarrow> True | Some v \<Rightarrow> \<not> py_truthy v)
            then Some (JStr name) else map_of kvs key))"
proof (cases "map_of kvs ''medicine_name''")
  case None
  then have "fill_medicine_name (JDict kvs) name =
      Inr (JDict (AList.update ''medicine_name'' (JStr name) kvs))"
    by (simp add: fill_medicine_name_def)
  moreover have "\<forall>key. map_of (AList.update ''medicine_name'' (JStr name) kvs) key =
           (if key = ''medicine_name''
               \<and> (case map_of kvs key of None \<Rightarrow> True | Some v \<Rightarrow> \<not> py_truthy v)
            then Some (JStr name) else map_of kvs key)"
    using None by (simp add: update_conv')
  ultimately show ?thesis by blast
next
  case (Some v)
  show ?thesis
  proof (cases "py_truthy v")
    case True
    then have "fill_medicine_name (JDict kvs) name = Inr (JDict kvs)"
      using Some by (simp add: fill_medicine_name_def)
    moreover have "\<forall>key. map_of kvs key =
           (if key = ''medicine_name''
               \<and> (case map_of kvs key of None \<Rightarrow> True | Some v \<Rightarrow> \<not> py_truthy v)
            then Some (JStr name) else map_of kvs key)"
      using Some True by simp
    ultimately show ?thesis by blast
  next
    case False
    then have "fill_medicine_name (JDict kvs) name =
        Inr (JDict (AList.update ''medicine_name'' (JStr name) kvs))"
      using Some by (simp add: fill_medicine_name_def)
    moreover have "\<forall>key. map_of (AList.update ''medicine_name'' (JStr name) kvs) key =
           (if key = ''medicine_name''
               \<and> (case map_of kvs key of None \<Rightarrow> True | Some v \<Rightarrow> \<not> py_truthy v)
            then Some (JStr name) else map_of kvs key)"
      using Some False by (simp add: update_conv')
    ultimately show ?thesis by blast
  qed
qed

lemma fill_medicine_name_only_dict:
  "fill_medicine_name result name = Inr r \<Longrightarrow> \<exists>kvs. result = JDict kvs"
  by (cases result) (auto simp: fill_medicine_name_def split: if_splits bool.splits)

lemma py_split_from_nonempty: "py_split_from sep cur s \<noteq> []"
  by (induction sep cur s rule: py_split_from.induct) auto

lemma py_split_from_two:
  "sep \<noteq> [] \<Longrightarrow> py_in sep s \<Longrightarrow> 2 \<le> length (py_split_from sep cur s)"
proof (induction sep cur s rule: py_split_from.induct)
  case (1 sep cur)
  then show ?case by simp
next
  case (2 sep cur c cs)
  show ?case
  proof (cases "prefix sep (c # cs)")
    case True
    have "1 \<le> length (py_split_from sep [] (drop (length sep) (c # cs)))"
      using py_split_from_nonempty[of sep "[]" "drop (length sep) (c # cs)"]
      by (cases "py_split_from sep [] (drop (length sep) (c # cs))") auto
    then show ?thesis using True 2(3) by (simp del: drop_Suc_Cons)
  next
    case False
    then have "py_in sep cs" using 2(4) by simp
    then have "2 \<le> length (py_split_from sep (cur @ [c]) cs)"
      using 2(2) False 2(3) by simp
    then show ?thesis using False by simp
  qed
qed

lemma fenced_json_returns: "\<exists>json_text. fenced_json response_text = Inr json_text"
proof -
  have a: "py_in ''```json'' response_text \<Longrightarrow>
      \<exists>x. py_index (py_split ''```json'' response_text) 1 = Inr x"
    using py_split_from_two[of "''```json''" response_text "[]"]
    by (simp add: py_index_def py_split_def)
  have b: "py_in ''```'' response_text \<Longrightarrow>
      \<exists>x. py_index (py_split ''```'' response_text) 1 = Inr x"
    using py_split_from_two[of "''```''" response_text "[]"]
    by (simp add: py_index_def py_split_def)
  have c: "\<exists>x. py_index (py_split ''```'' t) 0 = Inr x" for t
    using py_split_from_nonempty[of "''```''" "[]" t]
    by (simp add: py_index_def py_split_def)
  show ?thesis
  proof (cases "py_in ''```json'' response_text")
    case True
    then obtain x where x: "py_index (py_split ''```json'' response_text) 1 = Inr x"
      using a by blast
    obtain y where y: "py_index (py_split ''```'' x) 0 = Inr y" using c by blast
    show ?thesis using True x y by (simp add: fenced_json_def)
  next
    case False
    show ?thesis
    proof (cases "py_in ''```'' response_text")
      case True
      then obtain x where x: "py_index (py_split ''```'' response_text) 1 = Inr x"
        using b by blast
      show ?thesis using False True x by (simp add: fenced_json_def)
    next
      case nf: False
      show ?thesis using False nf by (simp add: fenced_json_def)
    qed
  qed
qed

lemma required_filled:
  assumes "fill_medicine_name (JDict kvs) name = Inr r1"
    and "fill_required required_keys r1 = Inr r"
  shows "\<exists>kvs'. r = JDict kvs'
     \<and> (\<forall>key. map_of kvs' key =
          (case map_of kvs key of
             Some v \<Rightarrow> if key = ''medicine_name'' \<and> \<not> py_truthy v then Some (JStr name) else Some v
           | None \<Rightarrow>
               if key = ''medicine_name'' then Some (JStr name)
               else if key = ''key_benefits'' then Some (JList [])
               else if key \<in> set required_keys then Some (JStr '''')
               else None))"
proof -
  obtain kvs1 where k1: "fill_medicine_name (JDict kvs) name = Inr (JDict kvs1)"
    "\<forall>key. map_of kvs1 key =
           (if key = ''medicine_name''
               \<and> (case map_of kvs key of None \<Rightarrow> True | Some v \<Rightarrow> \<not> py_truthy v)
            then Some (JStr name) else map_of kvs key)"
    using fill_medicine_name_dict[of kvs name] by blast
  obtain kvs2 where k2: "fill_required required_keys (JDict kvs1) = Inr (JDict kvs2)"
    "\<forall>key. map_of kvs2 key =
           (if key \<in> set required_keys \<and> map_of kvs1 key = None
            then Some (if key = ''key_benefits'' then JList [] else JStr '''')
            else map_of kvs1 key)"
    using fill_required_dict[of required_keys kvs1] by blast
  have r: "r = JDict kvs2" using assms k1(1) k2(1) by simp
  have mn: "''medicine_name'' \<in> set required_keys" "''key_benefits'' \<in> set required_keys"
    by (simp_all add: required_keys_def)
  have "map_of kvs2 key =
          (case map_of kvs key of
             Some v \<Rightarrow> if key = ''medicine_name'' \<and> \<not> py_truthy v then Some (JStr name) else Some v
           | None \<Rightarrow>
               if key = ''medicine_name'' then Some (JStr name)
               else if key = ''key_benefits'' then Some (JList [])
               else if key \<in> set required_keys then Some (JStr '''')
               else None)" for key
    using k1(2)[rule_format, of key] k2(2)[rule_format, of key] mn
    by (cases "map_of kvs key") (auto split: if_splits)
  with r show ?thesis by blast
qed

lemma summarize_dict:
  assumes "summarize env k content name = Inr r"
  shows "\<exists>kvs'. r = JDict kvs' \<and> (\<forall>key \<in> set required_keys. map_of kvs' key \<noteq> None)"
proof -
  from assms obtain result r1 where
    f1: "fill_medicine_name result name = Inr r1" and
    f2: "fill_required required_keys r1 = Inr r"
    by (auto simp: summarize_def split: sum.splits)
  obtain kvs where "result = JDict kvs"
    using fill_medicine_name_only_dict[OF f1] by blast
  with f1 have f1': "fill_medicine_name (JDict kvs) name = Inr r1" by simp
  obtain kvs' where k: "r = JDict kvs'"
    "\<forall>key. map_of kvs' key =
          (case map_of kvs key of
             Some v \<Rightarrow> if key = ''medicine_name'' \<and> \<not> py_truthy v then Some (JStr name) else Some v
           | None \<Rightarrow>
               if key = ''medicine_name'' then Some (JStr name)
               else if key = ''key_benefits'' then Some (JList [])
               else if key \<in> set required_keys then Some (JStr '''')
               else None)"
    using required_filled[OF f1' f2] by blast
  have "map_of kvs' key \<noteq> None" if "key \<in> set required_keys" for key
    using k(2)[rule_format, of key] that by (cases "map_of kvs key") (auto split: if_splits)
  with k(1) show ?thesis by blast
qed

lemma error_record_keys:
  "\<forall>key \<in> set required_keys.
     map_of [(''medicine_name'', JStr name),
            (''description'', JStr (''Error extracting information: '' @ message e)),
            (''key_benefits'', JList []),
            (''directions'', JStr ''''),
            (''safety_info'', JStr ''''),
            (''relevant_info'', JStr '''')] key \<noteq> None"
  by (simp add: required_keys_def)

lemma extract_medicine_info_dict:
  "\<exists>kvs'. extract_medicine_info env k content name = (Inr (JDict kvs'), Suc k)
     \<and> (\<forall>key \<in> set required_keys. map_of kvs' key \<noteq> None)"
proof (cases "summarize env k content name")
  case (Inl e)
  then have "extract_medicine_info env k content name = (Inr (error_record name e), Suc k)"
    by (simp add: extract_medicine_info_no_retry extract_medicine_info_once_def)
  then show ?thesis
    using error_record_keys[of name e] unfolding error_record_def by blast
next
  case (Inr r)
  then have "extract_medicine_info env k content name = (Inr r, Suc k)"
    by (simp add: extract_medicine_info_no_retry extract_medicine_info_once_def)
  then show ?thesis using summarize_dict[OF Inr] by blast
qed


lemma example_env_simps:
  "generate_content (example_env responses) k name content = responses k"
  "json_loads (example_env responses) text =
     (if text = paracetamol_text then Inr paracetamol_json
      else if text = ''{}'' then Inr (JDict [])
      else Inl (Exn JSONDecodeError ''Expecting value''))"
  by (simp_all add: example_env_def)

lemma fenced_json_plain:
  "\<not> py_in ''```'' t \<Longrightarrow> \<not> py_in ''```json'' t \<Longrightarrow> fenced_json t = Inr (py_strip t)"
  by (simp add: fenced_json_def)

lemma backtick_free:
  "CHR 0x60 \<notin> set t \<Longrightarrow> \<not> py_in ''```'' t \<and> \<not> py_in ''```json'' t"
  by (induction t) auto

lemma py_replace_absent:
  "c \<notin> set t \<Longrightarrow> py_replace [c] new t = t"
  by (induction t) auto

lemma py_strip_clean:
  "t \<noteq> [] \<Longrightarrow> \<not> py_isspace (hd t) \<Longrightarrow> \<not> py_isspace (last t) \<Longrightarrow> py_strip t = t"
proof -
  assume a: "t \<noteq> []" "\<not> py_isspace (hd t)" "\<not> py_isspace (last t)"
  have 1: "dropWhile py_isspace t = t" using a by (cases t) auto
  have 2: "dropWhile py_isspace (rev t) = rev t"
    using a by (cases "rev t") (auto simp: hd_rev)
  show ?thesis by (simp add: py_strip_def 1 2)
qed

lemma paracetamol_text_plain:
  "fenced_json paracetamol_text = Inr paracetamol_text"
  "clean_json_text paracetamol_text = paracetamol_text"
proof -
  have s: "CHR 0x60 \<notin> set paracetamol_text" "nl \<notin> set paracetamol_text"
    "CHR 0x5C \<notin> set paracetamol_text"
    by (simp_all add: paracetamol_text_def quoted_def nl_def)
  have e: "paracetamol_text \<noteq> []" "\<not> py_isspace (hd paracetamol_text)"
    "\<not> py_isspace (last paracetamol_text)"
    by (simp_all add: paracetamol_text_def quoted_def py_isspace_def)
  show "fenced_json paracetamol_text = Inr paracetamol_text"
    using backtick_free[OF s(1)] fenced_json_plain[of paracetamol_text] py_strip_clean[OF e]
    by simp
  show "clean_json_text paracetamol_text = paracetamol_text"
    using s by (simp add: clean_json_text_def py_replace_absent)
qed

text \<open>
  Claim C1, on the code. The handler inside the function turns the exception of the first
  request into the default record, so the decorator never sees an exception and never
  calls the function again: with a backend that raises twice and then answers with valid
  JSON, the stage returns the error record of the first failure after one request, although
  the third request alone would have produced the parsed result.
\<close>

theorem extract_medicine_info_first_failure_not_retried:
  "extract_medicine_info (example_env two_failures) 0 ''Paracetamol 500mg tablet'' ''Paracetamol''
     = (Inr (error_record ''Paracetamol'' (Exn OtherError ''503 Service Unavailable'')), 1)
   \<and> summarize (example_env two_failures) 2 ''Paracetamol 500mg tablet'' ''Paracetamol''
     = Inr paracetamol_json"
proof
  show "extract_medicine_info (example_env two_failures) 0 ''Paracetamol 500mg tablet'' ''Paracetamol''
     = (Inr (error_record ''Paracetamol'' (Exn OtherError ''503 Service Unavailable'')), 1)"
    by (simp add: extract_medicine_info_no_retry extract_medicine_info_once_def summarize_def
        example_env_simps two_failures_def)
next
  have "fill_medicine_name paracetamol_json ''Paracetamol'' = Inr paracetamol_json"
    by (simp add: fill_medicine_name_def paracetamol_json_def)
  moreover have "fill_required required_keys paracetamol_json = Inr paracetamol_json"
    by (simp add: required_keys_def paracetamol_json_def)
  ultimately show "summarize (example_env two_failures) 2 ''Paracetamol 500mg tablet'' ''Paracetamol''
     = Inr paracetamol_json"
    by (simp add: summarize_def example_env_simps two_failures_def paracetamol_text_plain
        parse_json_def)
qed

text \<open>
  Claim C3. Whatever the backend and the parser do, the stage returns a dict in which
  the six required keys are present. When the response parses to a JSON object, the
  returned dict is that object with \<open>medicine_name\<close> set to the input name if it was
  missing or falsy, \<open>key_benefits\<close> set to the empty list if it was missing, and every
  other missing required key set to the empty string; all other entries are unchanged.
\<close>

theorem extract_medicine_info_all_keys:
  "(\<exists>kvs'. extract_medicine_info env k content name = (Inr (JDict kvs'), Suc k)
       \<and> (\<forall>key \<in> set required_keys. map_of kvs' key \<noteq> None))
   \<and> (generate_content env k name (take 20000 content) = Inr text
        \<and> fenced_json text = Inr json_text
        \<and> parse_json env (clean_json_text json_text) = Inr (JDict kvs) \<longrightarrow>
       (\<exists>kvs'. extract_medicine_info env k content name = (Inr (JDict kvs'), Suc k)
          \<and> (\<forall>key. map_of kvs' key =
               (case map_of kvs key of
                  Some v \<Rightarrow>
                    if key = ''medicine_name'' \<and> \<not> py_truthy v then Some (JStr name)
                    else Some v
                | None \<Rightarrow>
                    if key = ''medicine_name'' then Some (JStr name)
                    else if key = ''key_benefits'' then Some (JList [])
                    else if key \<in> set required_keys then Some (JStr '''')
                    else None))))"
proof (intro conjI impI)
  show "\<exists>kvs'. extract_medicine_info env k content name = (Inr (JDict kvs'), Suc k)
       \<and> (\<forall>key \<in> set required_keys. map_of kvs' key \<noteq> None)"
    by (rule extract_medicine_info_dict)
next
  assume h: "generate_content env k name (take 20000 content) = Inr text
        \<and> fenced_json text = Inr json_text
        \<and> parse_json env (clean_json_text json_text) = Inr (JDict kvs)"
  obtain kvs1 where k1: "fill_medicine_name (JDict kvs) name = Inr (JDict kvs1)"
    using fill_medicine_name_dict[of kvs name] by blast
  obtain kvs2 where k2: "fill_required required_keys (JDict kvs1) = Inr (JDict kvs2)"
    using fill_required_dict[of required_keys kvs1] by blast
  have s: "summarize env k content name = Inr (JDict kvs2)"
    using h k1 k2 by (simp add: summarize_def)
  then have e: "extract_medicine_info env k content name = (Inr (JDict kvs2), Suc k)"
    by (simp add: extract_medicine_info_no_retry extract_medicine_info_once_def)
  show "\<exists>kvs'. extract_medicine_info env k content name = (Inr (JDict kvs'), Suc k)
          \<and> (\<forall>key. map_of kvs' key =
               (case map_of kvs key of
                  Some v \<Rightarrow>
                    if key = ''medicine_name'' \<and> \<not> py_truthy v then Some (JStr name)
                    else Some v
                | None \<Rightarrow>
                    if key = ''medicine_name'' then Some (JStr name)
                    else if key = ''key_benefits'' then Some (JList [])
                    else if key \<in> set required_keys then Some (JStr '''')
                    else None))"
    using required_filled[OF k1 k2] e by auto
qed

theorem extract_medicine_info_all_keys_witness:
  "\<exists>kvs'. extract_medicine_info (example_env (\<lambda>k. Inr ''{}'')) 0 ''Paracetamol 500mg tablet''
            ''paracetamol'' = (Inr (JDict kvs'), 1)
     \<and> map_of kvs' ''medicine_name'' = Some (JStr ''paracetamol'')
     \<and> map_of kvs' ''description'' = Some (JStr '''')
     \<and> map_of kvs' ''key_benefits'' = Some (JList [])
     \<and> map_of kvs' ''directions'' = Some (JStr '''')
     \<and> map_of kvs' ''safety_info'' = Some (JStr '''')
     \<and> map_of kvs' ''relevant_info'' = Some (JStr '''')"
proof -
  let ?env = "example_env (\<lambda>k. Inr ''{}'')"
  have g: "generate_content ?env 0 ''paracetamol'' (take 20000 ''Paracetamol 500mg tablet'')
      = Inr ''{}''"
    by (simp add: example_env_simps)
  have f: "fenced_json ''{}'' = Inr ''{}''"
    by (simp add: fenced_json_def py_strip_def py_isspace_def)
  have p: "parse_json ?env (clean_json_text ''{}'') = Inr (JDict [])"
    by (simp add: parse_json_def clean_json_text_def example_env_simps paracetamol_text_def
        quoted_def nl_def)
  obtain kvs' where k:
    "extract_medicine_info ?env 0 ''Paracetamol 500mg tablet'' ''paracetamol''
       = (Inr (JDict kvs'), Suc 0)"
    "\<forall>key. map_of kvs' key =
               (case map_of [] key of
                  Some v \<Rightarrow>
                    if key = ''medicine_name'' \<and> \<not> py_truthy v then Some (JStr ''paracetamol'')
                    else Some v
                | None \<Rightarrow>
                    if key = ''medicine_name'' then Some (JStr ''paracetamol'')
                    else if key = ''key_benefits'' then Some (JList [])
                    else if key \<in> set required_keys then Some (JStr '''')
                    else None)"
    using extract_medicine_info_all_keys[of ?env 0 "''Paracetamol 500mg tablet''"
        "''paracetamol''" "''{}''" "''{}''" "[]"] g f p
    by blast
  have "map_of kvs' ''medicine_name'' = Some (JStr ''paracetamol'')"
    "map_of kvs' ''description'' = Some (JStr '''')"
    "map_of kvs' ''key_benefits'' = Some (JList [])"
    "map_of kvs' ''directions'' = Some (JStr '''')"
    "map_of kvs' ''safety_info'' = Some (JStr '''')"
    "map_of kvs' ''relevant_info'' = Some (JStr '''')"
    using k(2) by (simp_all add: required_keys_def)
  with k(1) show ?thesis by auto
qed

text \<open>
  Claim C4. The stage never raises. When the body of the stage fails with an exception
  \<open>e\<close>, in the request or in the parse, the stage returns the default record: the input
  name, a description that embeds the message of \<open>e\<close>, an empty list of benefits and
  empty strings elsewhere. In particular this is what it returns when the backend raises
  on all its requests.
\<close>

theorem extract_medicine_info_failure_record:
  "(\<exists>r. extract_medicine_info env k content name = (Inr r, Suc k))
   \<and> (summarize env k content name = Inl e \<longrightarrow>
        extract_medicine_info env k content name =
          (Inr (JDict [(''medicine_name'', JStr name),
                       (''description'', JStr (''Error extracting information: '' @ message e)),
                       (''key_benefits'', JList []),
                       (''directions'', JStr ''''),
                       (''safety_info'', JStr ''''),
                       (''relevant_info'', JStr '''')]), Suc k))
   \<and> ((\<forall>j. isl (generate_content env j name (take 20000 content))) \<longrightarrow>
        (\<exists>e'. generate_content env k name (take 20000 content) = Inl e'
           \<and> extract_medicine_info env k content name = (Inr (error_record name e'), Suc k)))"
proof (intro conjI impI)
  show "\<exists>r. extract_medicine_info env k content name = (Inr r, Suc k)"
    using extract_medicine_info_once_returns[of env k content name]
    by (simp add: extract_medicine_info_no_retry)
next
  assume "summarize env k content name = Inl e"
  then show "extract_medicine_info env k content name =
          (Inr (JDict [(''medicine_name'', JStr name),
                       (''description'', JStr (''Error extracting information: '' @ message e)),
                       (''key_benefits'', JList []),
                       (''directions'', JStr ''''),
                       (''safety_info'', JStr ''''),
                       (''relevant_info'', JStr '''')]), Suc k)"
    by (simp add: extract_medicine_info_no_retry extract_medicine_info_once_def error_record_def)
next
  assume "\<forall>j. isl (generate_content env j name (take 20000 content))"
  then obtain e' where g: "generate_content env k name (take 20000 content) = Inl e'"
    by (auto simp: isl_def)
  then have "summarize env k content name = Inl e'" by (simp add: summarize_def)
  then have "extract_medicine_info env k content name = (Inr (error_record name e'), Suc k)"
    by (simp add: extract_medicine_info_no_retry extract_medicine_info_once_def)
  with g show "\<exists>e'. generate_content env k name (take 20000 content) = Inl e'
           \<and> extract_medicine_info env k content name = (Inr (error_record name e'), Suc k)"
    by blast
qed

theorem extract_medicine_info_failure_record_witness:
  "extract_medicine_info (example_env (\<lambda>k. Inl (Exn OtherError ''503 Service Unavailable''))) 0
     ''Paracetamol 500mg tablet'' ''paracetamol''
   = (Inr (JDict [(''medicine_name'', JStr ''paracetamol''),
                  (''description'',
                     JStr ''Error extracting information: 503 Service Unavailable''),
                  (''key_benefits'', JList []),
                  (''directions'', JStr ''''),
                  (''safety_info'', JStr ''''),
                  (''relevant_info'', JStr '''')]), 1)"
proof -
  let ?env = "example_env (\<lambda>k. Inl (Exn OtherError ''503 Service Unavailable''))"
  have a: "\<forall>j. isl (generate_content ?env j ''paracetamol'' (take 20000 ''Paracetamol 500mg tablet''))"
    by (simp add: example_env_simps)
  have g: "generate_content ?env 0 ''paracetamol'' (take 20000 ''Paracetamol 500mg tablet'')
     = Inl (Exn OtherError ''503 Service Unavailable'')"
    by (simp add: example_env_simps)
  from extract_medicine_info_failure_record[of ?env 0 "''Paracetamol 500mg tablet''"
      "''paracetamol''"] a
  obtain e' where e:
    "generate_content ?env 0 ''paracetamol'' (take 20000 ''Paracetamol 500mg tablet'') = Inl e'"
    "extract_medicine_info ?env 0 ''Paracetamol 500mg tablet'' ''paracetamol''
       = (Inr (error_record ''paracetamol'' e'), Suc 0)"
    by blast
  from e(1) g have "e' = Exn OtherError ''503 Service Unavailable''" by simp
  with e(2) show ?thesis by (simp add: error_record_def)
qed

section \<open>Properties of the Pipeline Orchestrator\<close>

lemma process_items_length:
  "length (fst (process_items env s i k medicine_list)) = length medicine_list"
proof (induction medicine_list arbitrary: i k)
  case Nil
  then show ?case by simp
next
  case (Cons m ms)
  obtain info ok k' where p: "process_item env (item s i) k m = ((info, ok), k')"
    by (metis prod.exhaust)
  obtain rs c k'' where q: "process_items env s (Suc i) k' ms = (rs, c, k'')"
    by (metis prod.exhaust)
  have "length rs = length ms" using Cons.IH[of "Suc i" k'] q by simp
  then show ?case using p q by simp
qed

lemma format_results_keys:
  "format_results env results acc = Inr medicine_data \<Longrightarrow>
   \<exists>kes. map (format_entry env) results = map Inr kes
      \<and> set (map fst medicine_data) = set (map fst acc) \<union> set (map fst kes)
      \<and> (distinct (map fst acc) \<longrightarrow> distinct (map fst medicine_data))"
proof (induction results arbitrary: acc)
  case Nil
  then show ?case by simp
next
  case (Cons info results)
  from Cons.prems obtain key entry where
    fe: "format_entry env info = Inr (key, entry)" and
    fr: "format_results env results (AList.update key entry acc) = Inr medicine_data"
    by (auto split: sum.splits)
  from Cons.IH[OF fr] obtain kes where k:
    "map (format_entry env) results = map Inr kes"
    "set (map fst medicine_data) = set (map fst (AList.update key entry acc)) \<union> set (map fst kes)"
    "distinct (map fst (AList.update key entry acc)) \<longrightarrow> distinct (map fst medicine_data)"
    by blast
  have "map (format_entry env) (info # results) = map Inr ((key, entry) # kes)"
    using fe k(1) by simp
  moreover have "set (map fst medicine_data) = set (map fst acc) \<union> set (map fst ((key, entry) # kes))"
    using k(2) by (auto simp: dom_update)
  moreover have "distinct (map fst acc) \<longrightarrow> distinct (map fst medicine_data)"
    using k(3) by (simp add: distinct_update)
  ultimately show ?case by blast
qed

lemma format_results_count:
  assumes "format_results env results [] = Inr medicine_data"
  shows "\<exists>kes. map (format_entry env) results = map Inr kes
      \<and> length kes = length results
      \<and> set (map fst medicine_data) = set (map fst kes)
      \<and> distinct (map fst medicine_data)
      \<and> length medicine_data \<le> length results
      \<and> (length medicine_data = length results \<longleftrightarrow> distinct (map fst kes))"
proof -
  from format_results_keys[OF assms] obtain kes where k:
    "map (format_entry env) results = map Inr kes"
    "set (map fst medicine_data) = set (map fst kes)"
    "distinct (map fst medicine_data)"
    by auto
  have len: "length kes = length results"
    using k(1) by (metis length_map)
  have c: "length medicine_data = card (set (map fst kes))"
    using k(2,3) by (metis distinct_card length_map)
  have le: "card (set (map fst kes)) \<le> length kes"
    by (metis card_length length_map)
  have eq: "card (set (map fst kes)) = length kes \<longleftrightarrow> distinct (map fst kes)"
    by (metis card_distinct distinct_card length_map)
  show ?thesis using k len c le eq by auto
qed

lemma search_suggestion_page:
  "search_single_medicine (suggestion_page s 0 c) q = Inr (s, Some ''https://www.1mg.com/drugs/p'')"
  by (simp add: search_single_medicine_def open_results_def suggestion_page_def
      search_selectors_def did_you_mean_step_def did_you_mean_body_def showing_results_step_def
      select_medication_website_def select_body_def loaded_page_def result_link_def
      preferred_domains_def try_link_def)

lemma summarize_paracetamol:
  "summarize (example_env (\<lambda>k. Inr paracetamol_text)) k content name = Inr paracetamol_json"
proof -
  have "fill_medicine_name paracetamol_json name = Inr paracetamol_json"
    by (simp add: fill_medicine_name_def paracetamol_json_def)
  moreover have "fill_required required_keys paracetamol_json = Inr paracetamol_json"
    by (simp add: required_keys_def paracetamol_json_def)
  ultimately show ?thesis
    by (simp add: summarize_def example_env_simps paracetamol_text_plain parse_json_def)
qed

lemma process_item_paracetamol:
  "process_item (example_env (\<lambda>k. Inr paracetamol_text)) (found_item html) k name
     = ((paracetamol_info, True), Suc k)"
proof -
  have e: "extract_medicine_info (example_env (\<lambda>k. Inr paracetamol_text)) k content nm
     = (Inr paracetamol_json, Suc k)" for content nm
    by (simp add: extract_medicine_info_no_retry extract_medicine_info_once_def
        summarize_paracetamol)
  have u: "py_setitem paracetamol_json ''url'' (JStr ''https://www.1mg.com/drugs/p'')
     = Inr paracetamol_info"
    by (simp add: paracetamol_json_def paracetamol_info_def)
  have m: "meaningful paracetamol_info = Inr True"
    by (simp add: meaningful_def paracetamol_info_def)
  show ?thesis
    by (simp add: process_item_def item_body_def found_item_def search_suggestion_page e u m)
qed

lemma format_entry_paracetamol:
  "format_entry env paracetamol_info = Inr (KStr ''Paracetamol'', paracetamol_entry)"
  by (simp add: format_entry_def and_then_def paracetamol_info_def benefits_string_def
      get_url_def paracetamol_entry_def)

lemma process_two_paracetamol:
  "process_medicine_list (example_env (\<lambda>k. Inr paracetamol_text))
     (steady_session (found_item html)) [a, b]
   = Inr [(KStr ''Paracetamol'', paracetamol_entry)]"
  by (simp add: process_medicine_list_def steady_session_def process_item_paracetamol
      format_entry_paracetamol)

lemma format_results_map:
  "format_results env results acc = Inr medicine_data \<Longrightarrow>
   \<exists>kes. map (format_entry env) results = map Inr kes
      \<and> map_of medicine_data = map_of acc ++ map_of (rev kes)"
proof (induction results arbitrary: acc)
  case Nil
  then show ?case by simp
next
  case (Cons info results)
  from Cons.prems obtain key entry where
    fe: "format_entry env info = Inr (key, entry)" and
    fr: "format_results env results (AList.update key entry acc) = Inr medicine_data"
    by (auto split: sum.splits)
  from Cons.IH[OF fr] obtain kes where k:
    "map (format_entry env) results = map Inr kes"
    "map_of medicine_data = map_of (AList.update key entry acc) ++ map_of (rev kes)"
    by blast
  have "map (format_entry env) (info # results) = map Inr ((key, entry) # kes)"
    using fe k(1) by simp
  moreover have "map_of medicine_data = map_of acc ++ map_of (rev ((key, entry) # kes))"
    unfolding k(2) by (rule ext) (simp add: update_conv' map_add_def split: option.splits)
  ultimately show ?case by blast
qed

lemma format_entry_fields:
  assumes "format_entry env info = Inr (key, entry)"
  shows "(\<exists>name. py_getitem info ''medicine_name'' = Inr name \<and> py_hash_key name = Inr key)
     \<and> (\<exists>benefits. py_getitem info ''key_benefits'' = Inr benefits
            \<and> benefits_string env benefits = Inr (key_benefits_field entry))
     \<and> py_getitem info ''description'' = Inr (description_field entry)
     \<and> py_getitem info ''directions'' = Inr (directions_field entry)
     \<and> py_getitem info ''safety_info'' = Inr (safety_info_field entry)
     \<and> py_getitem info ''relevant_info'' = Inr (relevant_info_field entry)
     \<and> get_url info = Inr (url_field entry)"
  using assms
  by (auto simp: format_entry_def and_then_def split: sum.splits)

lemma process_item_record:
  "\<exists>kvs. fst (fst (process_item env obs k name)) = JDict kvs
     \<and> (\<forall>key \<in> set required_keys \<union> {''url''}. map_of kvs key \<noteq> None)"
proof (cases "item_body env obs k name")
  case (Pair r k')
  show ?thesis
  proof (cases r)
    case (Inl e)
    then have "fst (fst (process_item env obs k name)) = failure_record name e"
      using Pair by (simp add: process_item_def)
    then show ?thesis
      by (simp add: failure_record_def required_keys_def)
  next
    case (Inr p)
    then have f: "fst (fst (process_item env obs k name)) = fst p"
      using Pair by (simp add: process_item_def)
    have "fst p = no_url_record name \<or>
      (\<exists>c n info j u. extract_medicine_info env k c n = (Inr info, j)
          \<and> py_setitem info ''url'' (JStr u) = Inr (fst p))"
      using Pair Inr
      by (auto simp: item_body_def Let_def split: sum.splits prod.splits option.splits
          if_splits) blast+
    then show ?thesis
    proof
      assume "fst p = no_url_record name"
      then show ?thesis using f by (simp add: no_url_record_def required_keys_def)
    next
      assume "\<exists>c n info j u. extract_medicine_info env k c n = (Inr info, j)
          \<and> py_setitem info ''url'' (JStr u) = Inr (fst p)"
      then obtain c n info j u where
        e: "extract_medicine_info env k c n = (Inr info, j)" and
        s: "py_setitem info ''url'' (JStr u) = Inr (fst p)"
        by blast
      obtain kvs' where k: "extract_medicine_info env k c n = (Inr (JDict kvs'), Suc k)"
        "\<forall>key \<in> set required_keys. map_of kvs' key \<noteq> None"
        using extract_medicine_info_dict[of env k c n] by blast
      have "info = JDict kvs'" using e k(1) by simp
      then have "fst p = JDict (AList.update ''url'' (JStr u) kvs')" using s by simp
      moreover have "\<forall>key \<in> set required_keys \<union> {''url''}.
          map_of (AList.update ''url'' (JStr u) kvs') key \<noteq> None"
        using k(2) by (auto simp: update_conv')
      ultimately show ?thesis using f by simp
    qed
  qed
qed

lemma process_items_records:
  "\<forall>info \<in> set (fst (process_items env s i k medicine_list)).
     \<exists>kvs. info = JDict kvs \<and> (\<forall>key \<in> set required_keys \<union> {''url''}. map_of kvs key \<noteq> None)"
proof (induction medicine_list arbitrary: i k)
  case Nil
  then show ?case by simp
next
  case (Cons m ms)
  obtain info ok k' where p: "process_item env (item s i) k m = ((info, ok), k')"
    by (metis prod.exhaust)
  obtain rs c k'' where q: "process_items env s (Suc i) k' ms = (rs, c, k'')"
    by (metis prod.exhaust)
  have a: "\<exists>kvs. info = JDict kvs
      \<and> (\<forall>key \<in> set required_keys \<union> {''url''}. map_of kvs key \<noteq> None)"
    using process_item_record[of env "item s i" k m] p by simp
  have b: "\<forall>info \<in> set rs.
     \<exists>kvs. info = JDict kvs \<and> (\<forall>key \<in> set required_keys \<union> {''url''}. map_of kvs key \<noteq> None)"
    using Cons.IH[of "Suc i" k'] q by simp
  have "fst (process_items env s i k (m # ms)) = info # rs" using p q by simp
  then show ?case using a b by simp
qed

lemma extract_empty_object:
  assumes "responses k = Inr ''{}''"
  shows "extract_medicine_info (example_env responses) k content name =
    (Inr (JDict [(''medicine_name'', JStr name), (''description'', JStr ''''),
                 (''key_benefits'', JList []), (''directions'', JStr ''''),
                 (''safety_info'', JStr ''''), (''relevant_info'', JStr '''')]), Suc k)"
proof -
  have f: "fenced_json ''{}'' = Inr ''{}''"
    by (simp add: fenced_json_def py_strip_def py_isspace_def)
  have p: "parse_json (example_env responses) (clean_json_text ''{}'') = Inr (JDict [])"
    by (simp add: parse_json_def clean_json_text_def example_env_simps paracetamol_text_def
        quoted_def nl_def)
  have m: "fill_medicine_name (JDict []) name = Inr (JDict [(''medicine_name'', JStr name)])"
    by (simp add: fill_medicine_name_def)
  have r: "fill_required required_keys (JDict [(''medicine_name'', JStr name)]) =
    Inr (JDict [(''medicine_name'', JStr name), (''description'', JStr ''''),
                 (''key_benefits'', JList []), (''directions'', JStr ''''),
                 (''safety_info'', JStr ''''), (''relevant_info'', JStr '''')])"
    by (simp add: required_keys_def)
  show ?thesis
    using assms
    by (simp add: extract_medicine_info_no_retry extract_medicine_info_once_def summarize_def
        example_env_simps f p m r)
qed

lemma extract_failed_request:
  assumes "responses k = Inl e"
  shows "extract_medicine_info (example_env responses) k content name =
    (Inr (error_record name e), Suc k)"
  using assms
  by (simp add: extract_medicine_info_no_retry extract_medicine_info_once_def summarize_def
      example_env_simps)

lemma process_two_one_answer:
  "process_medicine_list (example_env one_answer) (steady_session (found_item html)) [a, b]
   = Inr [(KStr ''paracetamol'', failed_entry)]"
proof -
  let ?env = "example_env one_answer"
  have r0: "one_answer 0 = Inr ''{}''"
    and r1: "one_answer (Suc 0) = Inl (Exn OtherError ''503 Service Unavailable'')"
    by (simp_all add: one_answer_def)
  have i0: "process_item ?env (found_item html) 0 a =
    ((JDict [(''medicine_name'', JStr ''paracetamol''), (''description'', JStr ''''),
             (''key_benefits'', JList []), (''directions'', JStr ''''),
             (''safety_info'', JStr ''''), (''relevant_info'', JStr ''''),
             (''url'', JStr ''https://www.1mg.com/drugs/p'')], False), Suc 0)"
    by (simp add: process_item_def item_body_def found_item_def search_suggestion_page
        extract_empty_object[of one_answer 0, OF r0] meaningful_def)
  have i1: "process_item ?env (found_item html) (Suc 0) b =
    ((JDict [(''medicine_name'', JStr ''paracetamol''),
             (''description'', JStr ''Error extracting information: 503 Service Unavailable''),
             (''key_benefits'', JList []), (''directions'', JStr ''''),
             (''safety_info'', JStr ''''), (''relevant_info'', JStr ''''),
             (''url'', JStr ''https://www.1mg.com/drugs/p'')], False), Suc (Suc 0))"
    by (simp add: process_item_def item_body_def found_item_def search_suggestion_page
        extract_failed_request[of one_answer "Suc 0", OF r1] error_record_def meaningful_def)
  show ?thesis
    by (simp add: process_medicine_list_def steady_session_def i0 i1 format_entry_def
        and_then_def benefits_string_def get_url_def failed_entry_def)
qed

text \<open>
  Claim C2 (amended). The loop over the input appends exactly one record per input name,
  whatever fails while an item is processed, and every record is a dict that has the six
  content keys and \<open>url\<close>. When the function returns, each record has been given a key,
  the resolved name it carries, and an entry that holds the description, the directions,
  the safety and the relevant information and the url of the record and its benefits as
  one string. The returned mapping has exactly the keys of the records, each once, and
  under each key the entry of the last record with that key: it has at most as many
  entries as there are input names, and as many exactly when the keys of the records are
  pairwise distinct.
\<close>

theorem process_medicine_list_entries:
  "length (fst (process_items env s i k medicine_list)) = length medicine_list
   \<and> (\<forall>info \<in> set (fst (process_items env s i k medicine_list)).
        \<exists>kvs. info = JDict kvs
          \<and> (\<forall>key \<in> set required_keys \<union> {''url''}. map_of kvs key \<noteq> None))
   \<and> (process_medicine_list env s medicine_list = Inr medicine_data \<longrightarrow>
        (\<exists>kes. map (format_entry env) (fst (process_items env s 0 0 medicine_list)) = map Inr kes
           \<and> length kes = length medicine_list
           \<and> (\<forall>n < length medicine_list.
                (\<exists>name. py_getitem (fst (process_items env s 0 0 medicine_list) ! n)
                           ''medicine_name'' = Inr name
                    \<and> py_hash_key name = Inr (fst (kes ! n)))
                \<and> (\<exists>benefits. py_getitem (fst (process_items env s 0 0 medicine_list) ! n)
                           ''key_benefits'' = Inr benefits
                    \<and> benefits_string env benefits = Inr (key_benefits_field (snd (kes ! n))))
                \<and> py_getitem (fst (process_items env s 0 0 medicine_list) ! n) ''description''
                    = Inr (description_field (snd (kes ! n)))
                \<and> py_getitem (fst (process_items env s 0 0 medicine_list) ! n) ''directions''
                    = Inr (directions_field (snd (kes ! n)))
                \<and> py_getitem (fst (process_items env s 0 0 medicine_list) ! n) ''safety_info''
                    = Inr (safety_info_field (snd (kes ! n)))
                \<and> py_getitem (fst (process_items env s 0 0 medicine_list) ! n) ''relevant_info''
                    = Inr (relevant_info_field (snd (kes ! n)))
                \<and> get_url (fst (process_items env s 0 0 medicine_list) ! n)
                    = Inr (url_field (snd (kes ! n))))
           \<and> map_of medicine_data = map_of (rev kes)
           \<and> set (map fst medicine_data) = set (map fst kes)
           \<and> distinct (map fst medicine_data)
           \<and> length medicine_data \<le> length medicine_list
           \<and> (length medicine_data = length medicine_list \<longleftrightarrow> distinct (map fst kes))))"
proof (intro conjI impI)
  show "length (fst (process_items env s i k medicine_list)) = length medicine_list"
    by (rule process_items_length)
next
  show "\<forall>info \<in> set (fst (process_items env s i k medicine_list)).
        \<exists>kvs. info = JDict kvs
          \<and> (\<forall>key \<in> set required_keys \<union> {''url''}. map_of kvs key \<noteq> None)"
    by (rule process_items_records)
next
  assume r: "process_medicine_list env s medicine_list = Inr medicine_data"
  let ?results = "fst (process_items env s 0 0 medicine_list)"
  obtain c k' where p: "process_items env s 0 0 medicine_list = (?results, c, k')"
    by (metis prod.collapse)
  have f: "format_results env ?results [] = Inr medicine_data"
    using r p
    by (auto simp: process_medicine_list_def split: option.splits sum.splits if_splits
        prod.splits)
  have l: "length ?results = length medicine_list"
    by (rule process_items_length)
  obtain kes where k:
    "map (format_entry env) ?results = map Inr kes"
    "length kes = length ?results"
    "set (map fst medicine_data) = set (map fst kes)"
    "distinct (map fst medicine_data)"
    "length medicine_data \<le> length ?results"
    "length medicine_data = length ?results \<longleftrightarrow> distinct (map fst kes)"
    using format_results_count[OF f] by blast
  obtain kes' where k':
    "map (format_entry env) ?results = map Inr kes'"
    "map_of medicine_data = map_of [] ++ map_of (rev kes')"
    using format_results_map[OF f] by blast
  have same: "kes' = kes"
    using k(1) k'(1) by (metis inj_Inr inj_map_eq_map)
  have m: "map_of medicine_data = map_of (rev kes)"
    using k'(2) same by simp
  have fields: "(\<exists>name. py_getitem (?results ! n) ''medicine_name'' = Inr name
                    \<and> py_hash_key name = Inr (fst (kes ! n)))
                \<and> (\<exists>benefits. py_getitem (?results ! n) ''key_benefits'' = Inr benefits
                    \<and> benefits_string env benefits = Inr (key_benefits_field (snd (kes ! n))))
                \<and> py_getitem (?results ! n) ''description''
                    = Inr (description_field (snd (kes ! n)))
                \<and> py_getitem (?results ! n) ''directions''
                    = Inr (directions_field (snd (kes ! n)))
                \<and> py_getitem (?results ! n) ''safety_info''
                    = Inr (safety_info_field (snd (kes ! n)))
                \<and> py_getitem (?results ! n) ''relevant_info''
                    = Inr (relevant_info_field (snd (kes ! n)))
                \<and> get_url (?results ! n) = Inr (url_field (snd (kes ! n)))"
    if "n < length medicine_list" for n
  proof -
    have n: "n < length ?results" "n < length kes" using that l k(2) by simp_all
    have "map (format_entry env) ?results ! n = map Inr kes ! n" using k(1) by simp
    then have "format_entry env (?results ! n) = Inr (kes ! n)"
      using n by simp
    then have "format_entry env (?results ! n) = Inr (fst (kes ! n), snd (kes ! n))"
      by simp
    then show ?thesis by (rule format_entry_fields)
  qed
  show "\<exists>kes. map (format_entry env) ?results = map Inr kes
           \<and> length kes = length medicine_list
           \<and> (\<forall>n < length medicine_list.
                (\<exists>name. py_getitem (?results ! n) ''medicine_name'' = Inr name
                    \<and> py_hash_key name = Inr (fst (kes ! n)))
                \<and> (\<exists>benefits. py_getitem (?results ! n) ''key_benefits'' = Inr benefits
                    \<and> benefits_string env benefits = Inr (key_benefits_field (snd (kes ! n))))
                \<and> py_getitem (?results ! n) ''description''
                    = Inr (description_field (snd (kes ! n)))
                \<and> py_getitem (?results ! n) ''directions''
                    = Inr (directions_field (snd (kes ! n)))
                \<and> py_getitem (?results ! n) ''safety_info''
                    = Inr (safety_info_field (snd (kes ! n)))
                \<and> py_getitem (?results ! n) ''relevant_info''
                    = Inr (relevant_info_field (snd (kes ! n)))
                \<and> get_url (?results ! n) = Inr (url_field (snd (kes ! n))))
           \<and> map_of medicine_data = map_of (rev kes)
           \<and> set (map fst medicine_data) = set (map fst kes)
           \<and> distinct (map fst medicine_data)
           \<and> length medicine_data \<le> length medicine_list
           \<and> (length medicine_data = length medicine_list \<longleftrightarrow> distinct (map fst kes))"
    using k(1) k(2) l fields m k(3) k(4) k(5) k(6)
    by (intro exI[of _ kes] conjI allI impI) (simp_all only:)
qed

theorem process_medicine_list_entries_witness:
  "process_medicine_list (example_env one_answer)
     (steady_session (found_item ''Paracetamol 500mg tablet'')) [''crocin'', ''calpol'']
     = Inr [(KStr ''paracetamol'', failed_entry)]
   \<and> length (fst (process_items (example_env one_answer)
             (steady_session (found_item ''Paracetamol 500mg tablet'')) 0 0
             [''crocin'', ''calpol''])) = 2
   \<and> (\<exists>kes. map (format_entry (example_env one_answer))
               (fst (process_items (example_env one_answer)
                  (steady_session (found_item ''Paracetamol 500mg tablet'')) 0 0
                  [''crocin'', ''calpol''])) = map Inr kes
         \<and> length kes = 2
         \<and> map_of [(KStr ''paracetamol'', failed_entry)] = map_of (rev kes)
         \<and> \<not> distinct (map fst kes))"
proof -
  let ?env = "example_env one_answer"
  let ?s = "steady_session (found_item ''Paracetamol 500mg tablet'')"
  let ?names = "[''crocin'', ''calpol'']"
  let ?data = "[(KStr ''paracetamol'', failed_entry)]"
  note t = process_medicine_list_entries[of ?env ?s 0 0 ?names ?data]
  have p: "process_medicine_list ?env ?s ?names = Inr ?data"
    by (rule process_two_one_answer)
  from t have a: "length (fst (process_items ?env ?s 0 0 ?names)) = 2" by simp
  from t p obtain kes where k:
    "map (format_entry ?env) (fst (process_items ?env ?s 0 0 ?names)) = map Inr kes"
    "length kes = length ?names"
    "map_of ?data = map_of (rev kes)"
    "length ?data = length ?names \<longleftrightarrow> distinct (map fst kes)"
    by blast
  have "\<not> distinct (map fst kes)" using k(4) by simp
  with k have "\<exists>kes. map (format_entry ?env) (fst (process_items ?env ?s 0 0 ?names)) = map Inr kes
         \<and> length kes = 2
         \<and> map_of ?data = map_of (rev kes)
         \<and> \<not> distinct (map fst kes)"
    by auto
  with p a show ?thesis by blast
qed

text \<open>
  The claim as it stands fails here: two input names, both searches and both
  summarizations succeed, the backend names the same medicine in both answers, and the
  returned mapping has one entry.
\<close>

theorem process_medicine_list_two_names_one_entry:
  "process_medicine_list (example_env (\<lambda>k. Inr paracetamol_text))
     (steady_session (found_item ''Paracetamol 500mg tablet'')) [''crocin'', ''calpol'']
   = Inr [(KStr ''Paracetamol'',
           \<lparr> description_field = JStr ''Pain reliever'',
             key_benefits_field = ''Relieves pain, Reduces fever'',
             directions_field = JStr ''After food'',
             safety_info_field = JStr '''',
             relevant_info_field = JStr '''',
             url_field = JStr ''https://www.1mg.com/drugs/p'' \<rparr>)]"
  using process_two_paracetamol[of "''Paracetamol 500mg tablet''" "''crocin''" "''calpol''"]
  by (simp add: paracetamol_entry_def)

text \<open>
  Claim C10. On the empty list the function raises: the session is started and closed,
  nothing is processed or formatted, and the success rate divides by the length of the
  list, which is zero.
\<close>

theorem process_medicine_list_empty_raises:
  "(\<exists>e. process_medicine_list env s [] = Inl e)
   \<and> (launch s = None \<and> close s = None \<longrightarrow>
        process_medicine_list env s [] = Inl (Exn ZeroDivisionError ''division by zero''))"
  by (simp add: process_medicine_list_def split: option.splits)

theorem process_medicine_list_empty_raises_witness:
  "process_medicine_list (example_env two_failures)
     (steady_session (found_item ''Paracetamol 500mg tablet'')) []
   = Inl (Exn ZeroDivisionError ''division by zero'')"
  using process_medicine_list_empty_raises[of "example_env two_failures"
      "steady_session (found_item ''Paracetamol 500mg tablet'')"]
  by (simp add: steady_session_def)

section \<open>Properties of the Content Normalizer\<close>

















































end
